theory Spec2Isabelle
  imports Complex_Main "HOL-Library.Word" "HOL-Library.AList" "HOL-Library.Log_Nat"
begin

unbundle bit_operations_syntax

section \<open>Binary node codec (src/binary.js)\<close>

text \<open>
  A \<open>Buffer\<close> is a list of bytes. A JavaScript string is represented by the bytes of its
  UTF-8 encoding (one \<open>char\<close> per byte), so \<open>Buffer.from(str, 'utf8')\<close> and
  \<open>buf.toString('utf8')\<close> are the byte-wise conversions below; byte sequences that are
  not well-formed UTF-8 (which \<open>toString\<close> would replace) are outside the model.
  Numbers are the safe integers, of magnitude below \<open>2^53\<close>, which a double holds
  exactly and \<open>toString\<close> writes with all their decimal digits; the other numbers
  are outside the model. \<open>undefined\<close> is the absence of a value (\<open>None\<close> where a
  value is optional). An object is the list of its own enumerable entries in
  \<open>Object.entries\<close> order, with distinct keys, and has the ordinary prototype.
\<close>

type_synonym byte = "8 word"

datatype jsval =
    JNull
  | JBool bool
  | JStr string
  | JNum int
  | JBytes "byte list"
  | JArr "jsval list"
  | JObj "(string \<times> jsval) list"

definition utf8_encode :: "string \<Rightarrow> byte list" where
  "utf8_encode s = map (\<lambda>c. of_nat (of_char c)) s"

definition utf8_decode :: "byte list \<Rightarrow> string" where
  "utf8_decode bs = map (\<lambda>b. char_of (unat b)) bs"

text \<open>The token dictionary \<open>this.TOKENS\<close>; index 0 is the reserved \<open>null\<close>.\<close>

definition TOKENS :: "string option list" where
  "TOKENS =
    [None, Some ''stream:start'', Some ''stream:end'', Some ''iq'', Some ''message'',
     Some ''notification'', Some ''presence'', Some ''receipt'', Some ''response'',
     Some ''success'', Some ''failure'', Some ''auth'', Some ''challenge'', Some ''type'',
     Some ''id'', Some ''from'', Some ''to'', Some ''xmlns'', Some ''class'', Some ''text'',
     Some ''media'', Some ''image'', Some ''video'', Some ''audio'', Some ''document'',
     Some ''body'', Some ''participant'', Some ''group'', Some ''contact'', Some ''status'']"

text \<open>\<open>Array.prototype.indexOf\<close>: the first index holding the value, or \<open>-1\<close>.\<close>

fun indexOf :: "'a list \<Rightarrow> 'a \<Rightarrow> int" where
  "indexOf [] x = -1"
| "indexOf (y # ys) x = (if y = x then 0 else (let i = indexOf ys x in if i < 0 then -1 else i + 1))"

subsection \<open>BinaryWriter\<close>

text \<open>The writer collects buffers and concatenates them; the model returns the bytes.\<close>

definition writeByte :: "int \<Rightarrow> byte list" where
  "writeByte b = [word_of_int (b AND 255)]"

definition writeInt20 :: "int \<Rightarrow> byte list" where
  "writeInt20 v =
     [word_of_int (drop_bit 16 v AND 255), word_of_int (drop_bit 8 v AND 255), word_of_int (v AND 255)]"

subsection \<open>Encoding\<close>

datatype encode_error = TypeError

definition writeString :: "string \<Rightarrow> byte list" where
  "writeString str =
     (let tokenIndex = indexOf TOKENS (Some str) in
      if tokenIndex > 0 \<and> tokenIndex < 256 then writeByte tokenIndex
      else
        (let encoded = utf8_encode str in
         (if length encoded < 256
          then writeByte 252 @ writeByte (int (length encoded))
          else writeByte 253 @ writeInt20 (int (length encoded))) @ encoded))"

text \<open>
  \<open>Number.prototype.toString\<close> on a safe integer: decimal digits, with a leading minus
  sign. (From \<open>10^21\<close> on, beyond the safe integers, the language writes an exponent.)
\<close>

fun digits :: "nat \<Rightarrow> string" where
  "digits n = (if n < 10 then [char_of (48 + n)] else digits (n div 10) @ [char_of (48 + n mod 10)])"

definition toString_int :: "int \<Rightarrow> string" where
  "toString_int i = (if i < 0 then CHR ''-'' # digits (nat (- i)) else digits (nat i))"

definition writeNumber :: "int \<Rightarrow> byte list" where
  "writeNumber num =
     (if num \<ge> 0 \<and> num < 256 then writeByte 250 @ writeByte num
      else writeString (toString_int num))"

definition writeBytes :: "byte list \<Rightarrow> byte list" where
  "writeBytes bytes = writeByte 254 @ writeInt20 (int (length bytes)) @ bytes"

text \<open>JavaScript truthiness of a property value (\<open>None\<close> is \<open>undefined\<close>).\<close>

fun truthy :: "jsval option \<Rightarrow> bool" where
  "truthy None = False"
| "truthy (Some JNull) = False"
| "truthy (Some (JBool b)) = b"
| "truthy (Some (JStr s)) = (s \<noteq> [])"
| "truthy (Some (JNum n)) = (n \<noteq> 0)"
| "truthy (Some _) = True"

definition isAttribute :: "string \<times> jsval \<Rightarrow> bool" where
  "isAttribute kv = (fst kv \<noteq> ''tag'' \<and> fst kv \<noteq> ''content'' \<and> fst kv \<noteq> ''children'')"

text \<open>
  Sequencing of writes that may throw: the first error aborts, otherwise the bytes are
  appended in order.
\<close>

fun concat_results :: "(encode_error + byte list) list \<Rightarrow> encode_error + byte list" where
  "concat_results [] = Inr []"
| "concat_results (r # rs) =
     (case r of Inl e \<Rightarrow> Inl e
      | Inr bs \<Rightarrow> (case concat_results rs of Inl e \<Rightarrow> Inl e | Inr bs' \<Rightarrow> Inr (bs @ bs')))"

text \<open>
  \<open>_writeNode\<close> with \<open>_writeArray\<close> and \<open>_writeObject\<close> inlined. \<open>_writeObject\<close> writes
  the tag (or a zero byte), the attribute count, the attributes and the content; it
  writes no marker of its own. A boolean is none of the types \<open>_writeNode\<close> tests for
  and is written as the zero byte. A truthy tag that is not a string is handed to
  \<open>Buffer.from(tag, 'utf8')\<close>: a buffer is copied, a number raises a TypeError, and the
  model raises the TypeError for the remaining non-string tags too, which lie outside
  the node type (tag: optional string).
\<close>

function writeNode :: "jsval \<Rightarrow> encode_error + byte list" where
  "writeNode (JStr s) = Inr (writeString s)"
| "writeNode (JNum n) = Inr (writeNumber n)"
| "writeNode (JBytes b) = Inr (writeBytes b)"
| "writeNode (JArr arr) =
     concat_results (Inr (writeByte 251) # Inr (writeByte (int (length arr))) # map writeNode arr)"
| "writeNode (JObj obj) =
     (let attributes = filter isAttribute obj in
      concat_results
        ((if truthy (map_of obj ''tag'')
          then (case map_of obj ''tag'' of
                  Some (JStr s) \<Rightarrow> Inr (writeString s)
                | Some (JBytes b) \<Rightarrow>
                    Inr ((if length b < 256
                          then writeByte 252 @ writeByte (int (length b))
                          else writeByte 253 @ writeInt20 (int (length b))) @ b)
                | _ \<Rightarrow> Inl TypeError)
          else Inr (writeByte 0))
         # Inr (writeByte (int (length attributes)))
         # map (\<lambda>kv. concat_results [Inr (writeString (fst kv)), writeNode (snd kv)]) attributes
         @ [case map_of obj ''content'' of
              Some c \<Rightarrow> writeNode c
            | None \<Rightarrow>
                (case map_of obj ''children'' of
                   Some (JArr ch) \<Rightarrow>
                     concat_results
                       (Inr (writeByte 251) # Inr (writeByte (int (length ch))) # map writeNode ch)
                 | _ \<Rightarrow> Inr (writeByte 0))]))"
| "writeNode (JBool b) = Inr (writeByte 0)"
| "writeNode JNull = Inr (writeByte 0)"
  by pat_completeness auto
termination
proof (relation "measure size", goal_cases)
  have entry: "size v \<le> size_list (size_prod (\<lambda>x. 0) size) obj"
    if "(k, v) \<in> set obj" for k :: string and v :: jsval and obj
    using size_list_estimation'[OF that, of "size v" "size_prod (\<lambda>x. 0) size"] by simp
  have item: "size x \<le> size_list size xs" if "x \<in> set xs" for x :: jsval and xs
    using that by (simp add: size_list_estimation')
  {
    case 1
    show ?case by simp
  next
    case 2
    then show ?case by (simp add: less_Suc_eq_le item)
  next
    case 3
    then show ?case by (auto simp: less_Suc_eq_le intro: entry[of "fst kv" "snd kv" for kv, simplified])
  next
    case 4
    then show ?case by (auto simp: less_Suc_eq_le dest!: map_of_SomeD entry item)
  next
    case 5
    then show ?case by (auto simp: less_Suc_eq_le dest!: map_of_SomeD entry item)
  }
qed

definition encode :: "jsval \<Rightarrow> encode_error + byte list" where
  "encode obj = writeNode obj"

subsection \<open>BinaryReader\<close>

text \<open>
  The reader is the immutable buffer \<open>data\<close> and the mutable \<open>position\<close>; a read
  returns its value with the new position, or the error it throws. Both throw sites of
  the reader raise \<open>Error('Unexpected end of binary data')\<close>; \<open>_readNode\<close> raises
  \<open>Error('Unknown binary marker: m')\<close>. The language raises the other two:
  \<open>KeyTypeError\<close> is the TypeError of \<open>obj[key] = value\<close> in \<open>_readObject\<close> when the key
  cannot be converted to a property key, and \<open>StackOverflow\<close> is the RangeError
  (\<open>Maximum call stack size exceeded\<close>) of a call that the call stack has no room for.
  \<open>PrototypeChanged\<close> is not an error of the source: the decoder has assigned an object
  or \<open>null\<close> to the key \<open>__proto__\<close>, which replaces the prototype of the object being
  built and leaves the values that \<open>jsval\<close> represents; the model stops there.
\<close>

datatype codec_error =
    UnexpectedEnd
  | UnknownMarker nat
  | KeyTypeError
  | StackOverflow
  | PrototypeChanged

type_synonym 'a reading = "codec_error + 'a \<times> nat"

definition readByte :: "byte list \<Rightarrow> nat \<Rightarrow> byte reading" where
  "readByte data pos =
     (if pos \<ge> length data then Inl UnexpectedEnd else Inr (data ! pos, pos + 1))"

definition readBytes :: "byte list \<Rightarrow> nat \<Rightarrow> nat \<Rightarrow> byte list reading" where
  "readBytes data pos count =
     (if pos + count > length data then Inl UnexpectedEnd
      else Inr (take count (drop pos data), pos + count))"

text \<open>A read followed by the rest of the function; a thrown error ends the function.\<close>

definition andThen :: "'a reading \<Rightarrow> ('a \<Rightarrow> nat \<Rightarrow> 'b reading) \<Rightarrow> 'b reading" where
  "andThen r k = (case r of Inl e \<Rightarrow> Inl e | Inr (x, p) \<Rightarrow> k x p)"

definition readInt20 :: "byte list \<Rightarrow> nat \<Rightarrow> nat reading" where
  "readInt20 data pos =
     andThen (readBytes data pos 3) (\<lambda>bytes p.
       Inr (push_bit 16 (unat (bytes ! 0)) OR push_bit 8 (unat (bytes ! 1)) OR unat (bytes ! 2), p))"

subsection \<open>Decoding\<close>

text \<open>
  \<open>String(v)\<close>, the conversion of a value to a string, as in a property key, a template
  literal or \<open>join\<close>: \<open>None\<close> where it throws a TypeError. An array is its elements
  joined by commas, \<open>null\<close> elements as empty strings. An object with the ordinary
  prototype is \<open>[object Object]\<close>, unless it has a property \<open>toString\<close> of its own:
  that is not a function here, and the fallback \<open>valueOf\<close> returns no primitive.
\<close>

fun join_comma :: "string list \<Rightarrow> string" where
  "join_comma [] = []"
| "join_comma [s] = s"
| "join_comma (s # t # ss) = s @ '','' @ join_comma (t # ss)"

fun all_some :: "'a option list \<Rightarrow> 'a list option" where
  "all_some [] = Some []"
| "all_some (x # xs) =
     (case x of None \<Rightarrow> None
      | Some y \<Rightarrow> (case all_some xs of None \<Rightarrow> None | Some ys \<Rightarrow> Some (y # ys)))"

fun toStringJS :: "jsval \<Rightarrow> string option" where
  "toStringJS JNull = Some ''null''"
| "toStringJS (JBool b) = Some (if b then ''true'' else ''false'')"
| "toStringJS (JStr s) = Some s"
| "toStringJS (JNum n) = Some (toString_int n)"
| "toStringJS (JBytes b) = Some (utf8_decode b)"
| "toStringJS (JArr xs) =
     (case all_some (map (\<lambda>x. if x = JNull then Some [] else toStringJS x) xs) of
        None \<Rightarrow> None
      | Some pieces \<Rightarrow> Some (join_comma pieces))"
| "toStringJS (JObj kvs) =
     (if map_of kvs ''toString'' \<noteq> None then None else Some ''[object Object]'')"

text \<open>
  The order of the entries of an object: the keys that are array indices (the decimal
  numerals of the integers from 0 to \<open>2^32 - 2\<close>, without leading zeros) come first, in
  ascending order, then the other keys in the order of their creation.
\<close>

definition arrayIndex :: "string \<Rightarrow> int option" where
  "arrayIndex k =
     (let n = foldl (\<lambda>a c. 10 * a + (of_char c - 48)) (0::int) k
      in if k \<noteq> [] \<and> list_all (\<lambda>c. 48 \<le> (of_char c :: int) \<and> (of_char c :: int) \<le> 57) k
            \<and> (hd k \<noteq> CHR ''0'' \<or> k = ''0'') \<and> n \<le> 4294967294
         then Some n else None)"

definition precedes :: "int \<Rightarrow> string \<times> jsval \<Rightarrow> bool" where
  "precedes i kv = (case arrayIndex (fst kv) of None \<Rightarrow> False | Some j \<Rightarrow> j < i)"

text \<open>
  \<open>obj[key] = value\<close> on an object with the ordinary prototype and a key other than
  \<open>__proto__\<close>: an existing entry keeps its place, a new one is created.
\<close>

definition setProp :: "(string \<times> jsval) list \<Rightarrow> string \<Rightarrow> jsval \<Rightarrow> (string \<times> jsval) list" where
  "setProp obj k v =
     (if map_of obj k \<noteq> None then map (\<lambda>kv. if fst kv = k then (k, v) else kv) obj
      else (case arrayIndex k of
              None \<Rightarrow> obj @ [(k, v)]
            | Some i \<Rightarrow> takeWhile (precedes i) obj @ [(k, v)] @ dropWhile (precedes i) obj))"

text \<open>
  \<open>obj[key] = value\<close> with a decoded key, which may be any value. What the language
  does here is an argument \<open>assign\<close> of the decoder, a function of the entries the object
  has, the key and the value: the entries after the assignment, a thrown TypeError, or
  a replaced prototype. \<open>assignProperty\<close> is that function for the values of \<open>jsval\<close>:
  the key is converted to a string; the key \<open>__proto__\<close> is the accessor of
  \<open>Object.prototype\<close>, whose setter replaces the prototype when the value is an object
  or \<open>null\<close> and does nothing otherwise, and creates no entry.
\<close>

datatype assigned = Assigned "(string \<times> jsval) list" | Thrown | Reprototyped

type_synonym assignment = "(string \<times> jsval) list \<Rightarrow> jsval \<Rightarrow> jsval \<Rightarrow> assigned"

fun isPrimitive :: "jsval \<Rightarrow> bool" where
  "isPrimitive (JBool b) = True"
| "isPrimitive (JStr s) = True"
| "isPrimitive (JNum n) = True"
| "isPrimitive _ = False"

definition assignProperty :: assignment where
  "assignProperty obj key val =
     (case toStringJS key of
        None \<Rightarrow> Thrown
      | Some k \<Rightarrow>
          (if k = ''__proto__'' then (if isPrimitive val then Assigned obj else Reprototyped)
           else Assigned (setProp obj k val)))"

fun isArray :: "jsval \<Rightarrow> bool" where
  "isArray (JArr xs) = True"
| "isArray _ = False"

text \<open>
  \<open>_readArray\<close> and \<open>_readObject\<close> call \<open>this._readNode(reader)\<close>; here the callee is
  the argument \<open>rn\<close>, the node reader one call level deeper, applied to a position.
\<close>

fun readItems :: "(nat \<Rightarrow> jsval reading) \<Rightarrow> nat \<Rightarrow> nat \<Rightarrow> jsval list reading" where
  "readItems rn 0 pos = Inr ([], pos)"
| "readItems rn (Suc n) pos =
     andThen (rn pos) (\<lambda>item p. andThen (readItems rn n p) (\<lambda>array p'. Inr (item # array, p')))"

definition readArray :: "(nat \<Rightarrow> jsval reading) \<Rightarrow> byte list \<Rightarrow> nat \<Rightarrow> jsval reading" where
  "readArray rn data pos =
     andThen (readByte data pos) (\<lambda>len p.
       andThen (readItems rn (unat len) p) (\<lambda>array p'. Inr (JArr array, p')))"

fun readAttributes ::
  "assignment \<Rightarrow> (nat \<Rightarrow> jsval reading) \<Rightarrow> nat \<Rightarrow> (string \<times> jsval) list \<Rightarrow> nat
     \<Rightarrow> (string \<times> jsval) list reading"
where
  "readAttributes assign rn 0 obj pos = Inr (obj, pos)"
| "readAttributes assign rn (Suc n) obj pos =
     andThen (rn pos) (\<lambda>key p.
       andThen (rn p) (\<lambda>val p'.
         (case assign obj key val of
            Assigned obj' \<Rightarrow> readAttributes assign rn n obj' p'
          | Thrown \<Rightarrow> Inl KeyTypeError
          | Reprototyped \<Rightarrow> Inl PrototypeChanged)))"

definition readObject ::
  "assignment \<Rightarrow> (nat \<Rightarrow> jsval reading) \<Rightarrow> byte list \<Rightarrow> nat \<Rightarrow> jsval reading"
where
  "readObject assign rn data pos =
     andThen (rn pos) (\<lambda>tag p1.
       andThen (readByte data p1) (\<lambda>attributeCount p2.
         andThen (readAttributes assign rn (unat attributeCount)
                    (if truthy (Some tag) then [(''tag'', tag)] else []) p2) (\<lambda>obj p3.
           andThen (rn p3) (\<lambda>content p4.
             Inr (JObj (if content \<noteq> JNull
                        then (if isArray content then setProp obj ''children'' content
                              else setProp obj ''content'' content)
                        else obj), p4)))))"

text \<open>
  \<open>_readNode\<close> after its first \<open>readByte\<close>: the tests on the marker \<open>m\<close> and the
  \<open>switch\<close>, with \<open>rn\<close> the node reader called by \<open>_readArray\<close> and \<open>_readObject\<close>.
\<close>

definition readMarked ::
  "assignment \<Rightarrow> (nat \<Rightarrow> jsval reading) \<Rightarrow> byte list \<Rightarrow> nat \<Rightarrow> nat \<Rightarrow> jsval reading"
where
  "readMarked assign rn data m p =
     (if m = 0 then Inr (JNull, p)
      else if m \<ge> 1 \<and> m < length TOKENS
        then Inr ((case TOKENS ! m of Some s \<Rightarrow> JStr s | None \<Rightarrow> JNull), p)
      else if m = 250 then andThen (readByte data p) (\<lambda>b p'. Inr (JNum (uint b), p'))
      else if m = 251 then readArray rn data p
      else if m = 252 then
        andThen (readByte data p) (\<lambda>len8 p1.
          andThen (readBytes data p1 (unat len8)) (\<lambda>bs p2. Inr (JStr (utf8_decode bs), p2)))
      else if m = 253 then
        andThen (readInt20 data p) (\<lambda>len20 p1.
          andThen (readBytes data p1 len20) (\<lambda>bs p2. Inr (JStr (utf8_decode bs), p2)))
      else if m = 254 then
        andThen (readInt20 data p) (\<lambda>bytesLen p1.
          andThen (readBytes data p1 bytesLen) (\<lambda>bs p2. Inr (JBytes bs, p2)))
      else if m = 255 then readObject assign rn data p
      else Inl (UnknownMarker m))"

text \<open>
  \<open>_readNode\<close>. Every nested array or object is read by a nested call of \<open>_readNode\<close>,
  and the call stack of the engine holds only so many: \<open>depth\<close> is the number of nested
  calls of \<open>_readNode\<close> that the stack still has room for, and the call that has none
  raises the RangeError. The number depends on the engine, on its stack size and on the
  stack in use when \<open>decode\<close> is called, so it is an argument of \<open>decode\<close>: \<open>limit\<close>.
\<close>

fun readNode :: "assignment \<Rightarrow> nat \<Rightarrow> byte list \<Rightarrow> nat \<Rightarrow> jsval reading" where
  "readNode assign 0 data pos = Inl StackOverflow"
| "readNode assign (Suc depth) data pos =
     andThen (readByte data pos) (\<lambda>marker p.
       readMarked assign (readNode assign depth data) data (unat marker) p)"

definition decodeAt :: "assignment \<Rightarrow> nat \<Rightarrow> byte list \<Rightarrow> jsval reading" where
  "decodeAt assign limit data = readNode assign limit data 0"

definition decodeWith :: "assignment \<Rightarrow> nat \<Rightarrow> byte list \<Rightarrow> codec_error + jsval" where
  "decodeWith assign limit data =
     (case decodeAt assign limit data of Inl e \<Rightarrow> Inl e | Inr (node, p) \<Rightarrow> Inr node)"

definition decode :: "nat \<Rightarrow> byte list \<Rightarrow> codec_error + jsval" where
  "decode limit data = decodeWith assignProperty limit data"

section \<open>Random bytes, key pairs and the cipher channel (utils.js, websocket-real.js)\<close>

text \<open>
  \<open>crypto.randomBytes\<close> draws from the operating system's generator. The generator is an
  explicit argument: an endless supply of bytes, of which a call takes the first \<open>n\<close> and
  leaves the rest.
\<close>

type_synonym rng = "nat \<Rightarrow> byte"

definition randomBytes :: "nat \<Rightarrow> rng \<Rightarrow> byte list \<times> rng" where
  "randomBytes n g = (map g [0..<n], (\<lambda>i. g (i + n)))"

text \<open>
  \<open>_generateKeyPair\<close>: 32 random bytes, clamped, are the private key; the public key is
  32 further random bytes.
\<close>

definition generateKeyPair :: "rng \<Rightarrow> (byte list \<times> byte list) \<times> rng" where
  "generateKeyPair g =
     (let (privateKey, g1) = randomBytes 32 g;
          privateKey = privateKey[0 := (privateKey ! 0) AND 248];
          privateKey = privateKey[31 := (privateKey ! 31) AND 127];
          privateKey = privateKey[31 := (privateKey ! 31) OR 64];
          (publicKey, g2) = randomBytes 32 g1
      in ((privateKey, publicKey), g2))"

text \<open>
  \<open>_computeSharedSecret(serverPublicKey)\<close>, a method of the manager whose private key is
  the first argument here: the body uses neither key.
\<close>

definition computeSharedSecret :: "byte list \<Rightarrow> byte list \<Rightarrow> rng \<Rightarrow> byte list \<times> rng" where
  "computeSharedSecret privateKey serverPublicKey g = randomBytes 32 g"

subsection \<open>HMAC, AES and the encrypt-then-MAC channel\<close>

text \<open>
  The primitives of Node's \<open>crypto\<close> module are arguments of the functions that use them:
  \<open>hmac key data\<close> is \<open>createHmac('sha256', key).update(data).digest()\<close>, and
  \<open>decipher key iv data\<close> and \<open>cipher key iv data\<close> are the AES-256-CBC objects fed
  with \<open>update\<close> and \<open>final\<close>, which may throw.
\<close>

datatype crypto_error =
    HmacVerificationFailed
  | TimingSafeEqualLength
  | CipherFailure

type_synonym hmac_fn = "byte list \<Rightarrow> byte list \<Rightarrow> byte list"
type_synonym cipher_fn = "byte list \<Rightarrow> byte list \<Rightarrow> byte list \<Rightarrow> crypto_error + byte list"

text \<open>\<open>buf.slice(0, end)\<close>: a negative end counts from the end of the buffer.\<close>

definition slice_to :: "byte list \<Rightarrow> int \<Rightarrow> byte list" where
  "slice_to buf e =
     (let n = int (length buf);
          e' = (if e < 0 then max (n + e) 0 else min e n)
      in take (nat e') buf)"


text \<open>
  \<open>aesDecrypt\<close>: the last byte of the deciphered text is the padding length; on an empty
  text it is \<open>undefined\<close> and the slice is empty.
\<close>

definition aesDecrypt :: "cipher_fn \<Rightarrow> byte list \<Rightarrow> byte list \<Rightarrow> crypto_error + byte list" where
  "aesDecrypt decipher key ciphertext =
     (let iv = take 16 ciphertext;
          encrypted = drop 16 ciphertext
      in (case decipher key iv encrypted of
            Inl e \<Rightarrow> Inl e
          | Inr decrypted \<Rightarrow>
              (if decrypted = [] then Inr []
               else (let padding = uint (last decrypted)
                     in Inr (slice_to decrypted (int (length decrypted) - padding))))))"


text \<open>
  \<open>crypto.timingSafeEqual\<close> throws a RangeError when the two buffers differ in length,
  and otherwise says whether they are equal.
\<close>

definition timingSafeEqual :: "byte list \<Rightarrow> byte list \<Rightarrow> crypto_error + bool" where
  "timingSafeEqual a b = (if length a \<noteq> length b then Inl TimingSafeEqualLength else Inr (a = b))"

definition whatsappDecrypt ::
  "hmac_fn \<Rightarrow> cipher_fn \<Rightarrow> byte list \<Rightarrow> byte list \<Rightarrow> byte list \<Rightarrow> crypto_error + byte list"
where
  "whatsappDecrypt hmac decipher encKey macKey ciphertext =
     (let receivedHmac = take 32 ciphertext;
          encryptedData = drop 32 ciphertext;
          computedHmac = hmac macKey encryptedData
      in (case timingSafeEqual receivedHmac computedHmac of
            Inl e \<Rightarrow> Inl e
          | Inr equal \<Rightarrow>
              (if \<not> equal then Inl HmacVerificationFailed
               else aesDecrypt decipher encKey encryptedData)))"



section \<open>Reconnection backoff (websocket-real.js)\<close>

subsection \<open>Double-precision arithmetic\<close>

text \<open>
  The numbers of the language are IEEE 754 doubles. A finite double is represented by
  its value, a real number; \<open>double x\<close> is the double nearest to the real number \<open>x\<close>,
  which is what an arithmetic operation returns for the exact result \<open>x\<close>: \<open>x\<close> is
  rounded to a multiple of its \<open>quantum\<close>, the distance between neighbouring doubles
  at the size of \<open>x\<close>, which is \<open>2^(e-52)\<close> for \<open>2^e \<le> |x| < 2^(e+1)\<close> (a significand of
  53 bits) and \<open>2^(-1074)\<close> at least (the subnormal numbers); of two nearest multiples
  the even one is taken. The exponent \<open>e\<close> is read off the number of bits of the
  integer part of \<open>|x|\<close>, or of \<open>1 / |x|\<close> when \<open>|x| < 1\<close>.

  The infinities and NaN have no representation: where the source's result is one of
  them (an exact result of magnitude \<open>2^1024\<close> or more, \<open>Math.pow(2, e)\<close> from
  \<open>e = 1024\<close> on), the functions below return the rounded real number instead, and a
  statement about them speaks of the source only where the two agree.
\<close>

definition pow2 :: "int \<Rightarrow> real" where
  "pow2 e = (if 0 \<le> e then 2 ^ nat e else 1 / 2 ^ nat (- e))"

definition round_half_even :: "real \<Rightarrow> int" where
  "round_half_even x =
     (let f = \<lfloor>x\<rfloor>; d = x - of_int f
      in if d < 1 / 2 then f else if 1 / 2 < d then f + 1 else if even f then f else f + 1)"

definition exponent :: "real \<Rightarrow> int" where
  "exponent x =
     (if 1 \<le> \<bar>x\<bar> then bitlen \<lfloor>\<bar>x\<bar>\<rfloor> - 1 else - bitlen (\<lceil>1 / \<bar>x\<bar>\<rceil> - 1))"

definition qexp :: "real \<Rightarrow> int" where
  "qexp x = max (exponent x - 52) (- 1074)"

definition quantum :: "real \<Rightarrow> real" where
  "quantum x = pow2 (max (exponent x - 52) (- 1074))"

definition double :: "real \<Rightarrow> real" where
  "double x = of_int (round_half_even (x / quantum x)) * quantum x"

subsection \<open>The delay\<close>

text \<open>
  \<open>_calculateBackoffDelay\<close> reads \<open>this.reconnectDelay\<close> and \<open>this.connectionAttempts\<close>;
  \<open>rnd\<close> is the value of \<open>Math.random()\<close>. \<open>Math.pow(2, e)\<close> is the double nearest to
  \<open>2^e\<close>, and the product, the jitter and the sum are rounded each.
\<close>

definition calculateBackoffDelay :: "real \<Rightarrow> int \<Rightarrow> real \<Rightarrow> real" where
  "calculateBackoffDelay reconnectDelay connectionAttempts rnd =
     (let baseDelay = reconnectDelay;
          maxDelay = 30000;
          jitter = double (rnd * 1000);
          exponentialDelay =
            min (double (baseDelay * double (pow2 (connectionAttempts - 1)))) maxDelay
      in double (exponentialDelay + jitter))"

text \<open>The constant \<open>exponentialDelay\<close> of \<open>_calculateBackoffDelay\<close>, the delay without the jitter.\<close>

definition exponentialDelay :: "real \<Rightarrow> int \<Rightarrow> real" where
  "exponentialDelay reconnectDelay connectionAttempts =
     min (double (reconnectDelay * double (pow2 (connectionAttempts - 1)))) 30000"



section \<open>Rate-limited outbound queue (production-client.js)\<close>

text \<open>
  The fields of \<open>ProductionWhatsAppClient\<close> that the message processor uses, with the
  prefix \<open>pc_\<close>. A promise is identified by a number; \<open>_queueMessage\<close> creates promise
  \<open>pc_nextPromise\<close> and stores its \<open>resolve\<close> and \<open>reject\<close> in the queued item, which
  is the only place that holds them. \<open>pc_settled\<close> logs every call of a \<open>resolve\<close> or
  \<open>reject\<close>, oldest first.

  \<open>_processMessageQueue\<close> is an async function: it runs up to \<open>await messageFunction()\<close>,
  and continues when the message function has returned or thrown. The item it took off
  the queue lives in local variables meanwhile; the model keeps it in \<open>pc_inFlight\<close>.
\<close>

datatype outcome = Returned jsval | Threw string

datatype settlement = ResolveCall jsval | RejectCall string

record queue_item =
  messageFunction :: nat
  promise :: nat
  attempts :: nat
  maxAttempts :: nat

record client =
  pc_messageQueue :: "queue_item list"
  pc_messagingActive :: bool
  pc_isReady :: bool
  pc_maxMessageRetries :: nat
  pc_inFlight :: "queue_item option"
  pc_nextPromise :: nat
  pc_settled :: "(nat \<times> settlement) list"

definition queueMessage :: "nat \<Rightarrow> client \<Rightarrow> nat \<times> client" where
  "queueMessage f c =
     (let p = pc_nextPromise c
      in (p, c\<lparr>pc_messageQueue :=
                  pc_messageQueue c @
                    [\<lparr>messageFunction = f, promise = p, attempts = 0,
                      maxAttempts = pc_maxMessageRetries c\<rparr>],
                pc_nextPromise := p + 1\<rparr>))"

text \<open>\<open>_processMessageQueue\<close> up to the \<open>await\<close>: the guard, the flag and the \<open>shift\<close>.\<close>

definition processMessageQueue_begin :: "client \<Rightarrow> client" where
  "processMessageQueue_begin c =
     (if pc_messagingActive c \<or> pc_messageQueue c = [] \<or> \<not> pc_isReady c then c
      else c\<lparr>pc_messagingActive := True,
             pc_inFlight := Some (hd (pc_messageQueue c)),
             pc_messageQueue := tl (pc_messageQueue c)\<rparr>)"

text \<open>
  After the \<open>await\<close>: \<open>resolve(result)\<close> of the item taken, or the \<open>catch\<close> block, which
  looks at the last item of the queue as it is then; and the \<open>finally\<close> block.
\<close>

definition processMessageQueue_finish :: "outcome \<Rightarrow> client \<Rightarrow> client" where
  "processMessageQueue_finish out c =
     (case pc_inFlight c of
        None \<Rightarrow> c
      | Some taken \<Rightarrow>
          (let c1 =
             (case out of
                Returned result \<Rightarrow> c\<lparr>pc_settled := pc_settled c @ [(promise taken, ResolveCall result)]\<rparr>
              | Threw error \<Rightarrow>
                  (if pc_messageQueue c = [] then c
                   else c\<lparr>pc_settled :=
                            pc_settled c @ [(promise (last (pc_messageQueue c)), RejectCall error)]\<rparr>))
           in c1\<lparr>pc_messagingActive := False, pc_inFlight := None\<rparr>))"

text \<open>\<open>_resetState\<close>, as far as these fields go.\<close>

definition resetState :: "client \<Rightarrow> client" where
  "resetState c = c\<lparr>pc_isReady := False, pc_messageQueue := []\<rparr>"

text \<open>
  What can happen to the client, one event at a time: a message is queued, the timer
  ticks, the message function in flight returns or throws, the state is reset, the
  client becomes ready.
\<close>

datatype client_event =
    Queue nat
  | Tick
  | Finish outcome
  | Reset
  | Ready

fun client_step :: "client_event \<Rightarrow> client \<Rightarrow> client" where
  "client_step (Queue f) c = snd (queueMessage f c)"
| "client_step Tick c = processMessageQueue_begin c"
| "client_step (Finish out) c = processMessageQueue_finish out c"
| "client_step Reset c = resetState c"
| "client_step Ready c = c\<lparr>pc_isReady := True\<rparr>"

fun client_run :: "client_event list \<Rightarrow> client \<Rightarrow> client" where
  "client_run [] c = c"
| "client_run (ev # evs) c = client_run evs (client_step ev c)"

fun is_Finish :: "client_event \<Rightarrow> bool" where
  "is_Finish (Finish out) = True"
| "is_Finish _ = False"

text \<open>
  The promises whose \<open>resolve\<close> and \<open>reject\<close> the client still holds, and the states
  the constructor and the events produce: those promises are distinct and were all
  created by \<open>_queueMessage\<close>, and the only calls made on them so far are calls of
  \<open>reject\<close>.
\<close>

definition held :: "client \<Rightarrow> nat list" where
  "held c = (case pc_inFlight c of None \<Rightarrow> [] | Some taken \<Rightarrow> [promise taken])
            @ map promise (pc_messageQueue c)"

fun is_reject :: "settlement \<Rightarrow> bool" where
  "is_reject (RejectCall e) = True"
| "is_reject (ResolveCall v) = False"

definition client_ok :: "client \<Rightarrow> bool" where
  "client_ok c = (distinct (held c) \<and> list_all (\<lambda>p. p < pc_nextPromise c) (held c)
                  \<and> (pc_inFlight c \<noteq> None) = pc_messagingActive c
                  \<and> list_all (\<lambda>x. fst x < pc_nextPromise c) (pc_settled c)
                  \<and> list_all (\<lambda>x. fst x \<in> set (held c) \<longrightarrow> is_reject (snd x)) (pc_settled c))"

definition client_init :: "nat \<Rightarrow> client" where
  "client_init retries =
     \<lparr>pc_messageQueue = [], pc_messagingActive = False, pc_isReady = False,
      pc_maxMessageRetries = retries, pc_inFlight = None, pc_nextPromise = 0, pc_settled = []\<rparr>"

section \<open>Connection manager (websocket-real.js)\<close>

text \<open>
  The state is the fields of \<open>RealWebSocketManager\<close> together with the part of the
  JavaScript runtime its methods act on: the armed timers of the event loop, the
  listeners that \<open>connect\<close> registers with \<open>once\<close>, the clock, the random sources, and
  logs of what the manager did to the outside (events emitted, calls on the socket,
  calls of \<open>resolve\<close> and \<open>reject\<close>). Each method is a function from state to state; an
  async method is split at its \<open>await\<close>.
\<close>

datatype readyState = CONNECTING | OPEN | CLOSING | CLOSED

datatype connection_state = Disconnected | Connecting | Connected | Authenticated

text \<open>
  The callbacks handed to \<open>setTimeout\<close> and \<open>setInterval\<close>, in source order: the
  connect timeout and the reconnect timer of \<open>connect\<close>, the timeouts of \<open>initializeAuth\<close>
  and \<open>loginWithSession\<close> (with the tag and the promise they close over), the pause of
  \<open>disconnect\<close>, and the three timers of \<open>_startKeepAlive\<close>.
\<close>

datatype task =
    ConnectTimeout
  | Reconnect
  | AuthInitTimeout string nat
  | SessionLoginTimeout string nat
  | DisconnectPause
  | PingInterval
  | PongTimeout
  | ConnectionMonitor

datatype socket_call = Created string | Sent string | Pinged | Closed | Terminated | ListenersRemoved

datatype resolver_call = ResolveWith nat jsval | RejectWith nat string

record queue_entry =
  desc :: string
  resolve :: "nat option"
  reject :: "nat option"

record connection_info =
  clientToken :: "jsval option"
  serverToken :: "jsval option"
  browserToken :: "jsval option"
  secret :: "byte list option"
  sharedSecret :: "byte list option"
  me :: "jsval option"
  pushname :: "jsval option"

record manager =
  ws :: "readyState option"
  isConnected :: bool
  isAuthenticated :: bool
  messageQueue :: "(string \<times> queue_entry) list"
  keepAliveTimer :: "nat option"
  reconnectTimer :: "nat option"
  connectionAttempts :: int
  maxReconnectAttempts :: int
  reconnectDelay :: real
  keepAliveInterval :: real
  connectionTimeout :: real
  autoReconnect :: bool
  lastActivity :: real
  pingInterval :: "nat option"
  pongTimeout :: "nat option"
  connectionMonitor :: "nat option"
  clientId :: "string option"
  serverRef :: "jsval option"
  privateKey :: "byte list option"
  publicKey :: "byte list option"
  encKey :: "byte list option"
  macKey :: "byte list option"
  connectionInfo :: connection_info
  messageSentCount :: nat
  serverIndex :: nat
  connectionState :: connection_state
  timers :: "(nat \<times> task \<times> real) list"
  nextTimer :: nat
  onceConnected :: "nat list"
  onceError :: "(nat \<times> bool) list"
  nextPromise :: nat
  clock :: real
  entropy :: rng
  mathRandom :: "nat \<Rightarrow> real"
  emitted :: "string list"
  socketCalls :: "socket_call list"
  resolverCalls :: "resolver_call list"

subsection \<open>The runtime: timers, events, random numbers\<close>

text \<open>
  \<open>setTimeout\<close> and \<open>setInterval\<close> arm a timer and return a fresh handle;
  \<open>clearTimeout\<close> and \<open>clearInterval\<close> disarm the timer with that handle, if armed.
\<close>

definition setTimer :: "task \<Rightarrow> real \<Rightarrow> manager \<Rightarrow> nat \<times> manager" where
  "setTimer cb delay s =
     (nextTimer s, s\<lparr>timers := timers s @ [(nextTimer s, cb, delay)], nextTimer := nextTimer s + 1\<rparr>)"

definition clearTimer :: "nat \<Rightarrow> manager \<Rightarrow> manager" where
  "clearTimer t s = s\<lparr>timers := filter (\<lambda>x. fst x \<noteq> t) (timers s)\<rparr>"

definition armed :: "manager \<Rightarrow> nat \<Rightarrow> bool" where
  "armed s t = (t \<in> fst ` set (timers s))"

text \<open>
  \<open>this.emit(name, ...)\<close>: the event is logged by name; listeners outside the class are
  not modelled, and are taken to return normally (but see \<open>_handleLoginResponse\<close> and
  \<open>_handleSessionResponse\<close>, where a listener that throws changes which callbacks of a
  pending request are called).
\<close>

definition emit :: "string \<Rightarrow> manager \<Rightarrow> manager" where
  "emit name s = s\<lparr>emitted := emitted s @ [name]\<rparr>"

definition socketCall :: "socket_call \<Rightarrow> manager \<Rightarrow> manager" where
  "socketCall a s = s\<lparr>socketCalls := socketCalls s @ [a]\<rparr>"

definition nextRandom :: "manager \<Rightarrow> real \<times> manager" where
  "nextRandom s = (mathRandom s 0, s\<lparr>mathRandom := (\<lambda>i. mathRandom s (i + 1))\<rparr>)"

definition takeRandomBytes :: "nat \<Rightarrow> manager \<Rightarrow> byte list \<times> manager" where
  "takeRandomBytes n s = (fst (randomBytes n (entropy s)), s\<lparr>entropy := snd (randomBytes n (entropy s))\<rparr>)"

text \<open>A \<open>resolve\<close> or \<open>reject\<close> stored in a queue item is called only when it is not \<open>null\<close>.\<close>

definition callResolve :: "nat option \<Rightarrow> jsval \<Rightarrow> manager \<Rightarrow> manager" where
  "callResolve r v s =
     (case r of None \<Rightarrow> s | Some p \<Rightarrow> s\<lparr>resolverCalls := resolverCalls s @ [ResolveWith p v]\<rparr>)"

definition callReject :: "nat option \<Rightarrow> string \<Rightarrow> manager \<Rightarrow> manager" where
  "callReject r e s =
     (case r of None \<Rightarrow> s | Some p \<Rightarrow> s\<lparr>resolverCalls := resolverCalls s @ [RejectWith p e]\<rparr>)"

subsection \<open>Construction\<close>

text \<open>
  The options the constructor reads. \<open>a || b\<close> takes the default when the option is
  missing or zero; \<open>autoReconnect\<close> is on unless the option is \<open>false\<close>.
\<close>

record options =
  opt_maxReconnectAttempts :: "int option"
  opt_reconnectDelay :: "real option"
  opt_keepAliveInterval :: "real option"
  opt_connectionTimeout :: "real option"
  opt_autoReconnect :: "bool option"

definition orDefault :: "'a::zero option \<Rightarrow> 'a \<Rightarrow> 'a" where
  "orDefault x d = (case x of None \<Rightarrow> d | Some v \<Rightarrow> if v = 0 then d else v)"

definition newManager :: "options \<Rightarrow> real \<Rightarrow> rng \<Rightarrow> (nat \<Rightarrow> real) \<Rightarrow> manager" where
  "newManager opts now g r =
     \<lparr>ws = None, isConnected = False, isAuthenticated = False, messageQueue = [],
      keepAliveTimer = None, reconnectTimer = None, connectionAttempts = 0,
      maxReconnectAttempts = orDefault (opt_maxReconnectAttempts opts) 50,
      reconnectDelay = orDefault (opt_reconnectDelay opts) 2000,
      keepAliveInterval = orDefault (opt_keepAliveInterval opts) 20000,
      connectionTimeout = orDefault (opt_connectionTimeout opts) 20000,
      autoReconnect = (opt_autoReconnect opts \<noteq> Some False),
      lastActivity = now, pingInterval = None, pongTimeout = None, connectionMonitor = None,
      clientId = None, serverRef = None, privateKey = None, publicKey = None,
      encKey = None, macKey = None,
      connectionInfo = \<lparr>clientToken = None, serverToken = None, browserToken = None,
                         secret = None, sharedSecret = None, me = None, pushname = None\<rparr>,
      messageSentCount = 0, serverIndex = 0, connectionState = Disconnected,
      timers = [], nextTimer = 0, onceConnected = [], onceError = [], nextPromise = 0,
      clock = now, entropy = g, mathRandom = r,
      emitted = [], socketCalls = [], resolverCalls = []\<rparr>"

definition defaultOptions :: options where
  "defaultOptions =
     \<lparr>opt_maxReconnectAttempts = None, opt_reconnectDelay = None, opt_keepAliveInterval = None,
      opt_connectionTimeout = None, opt_autoReconnect = None\<rparr>"

subsection \<open>Keep-alive, dead connections and reconnection\<close>

definition WA_WEB_SERVERS :: "string list" where
  "WA_WEB_SERVERS =
     [''wss://web.whatsapp.com/ws'', ''wss://w1.web.whatsapp.com/ws'',
      ''wss://w2.web.whatsapp.com/ws'', ''wss://w3.web.whatsapp.com/ws'']"

definition getNextServer :: "manager \<Rightarrow> string \<times> manager" where
  "getNextServer s =
     (WA_WEB_SERVERS ! serverIndex s,
      s\<lparr>serverIndex := (serverIndex s + 1) mod length WA_WEB_SERVERS\<rparr>)"

text \<open>\<open>_clearKeepAlive\<close>: four handles, each cleared and set to \<open>null\<close> when it is set.\<close>

definition clearKeepAlive :: "manager \<Rightarrow> manager" where
  "clearKeepAlive s =
     (let s1 = (case pingInterval s of None \<Rightarrow> s
                | Some t \<Rightarrow> (clearTimer t s)\<lparr>pingInterval := None\<rparr>);
          s2 = (case connectionMonitor s1 of None \<Rightarrow> s1
                | Some t \<Rightarrow> (clearTimer t s1)\<lparr>connectionMonitor := None\<rparr>);
          s3 = (case pongTimeout s2 of None \<Rightarrow> s2
                | Some t \<Rightarrow> (clearTimer t s2)\<lparr>pongTimeout := None\<rparr>);
          s4 = (case reconnectTimer s3 of None \<Rightarrow> s3
                | Some t \<Rightarrow> (clearTimer t s3)\<lparr>reconnectTimer := None\<rparr>)
      in s4)"

text \<open>\<open>_calculateBackoffDelay\<close> on the manager: it draws the jitter from \<open>Math.random()\<close>.\<close>

definition backoffDelay :: "manager \<Rightarrow> real \<times> manager" where
  "backoffDelay s =
     (let (rnd, s1) = nextRandom s
      in (calculateBackoffDelay (reconnectDelay s) (connectionAttempts s) rnd, s1))"

text \<open>
  The reconnect that \<open>connect\<close> and \<open>_handleConnectionDead\<close> schedule:
  \<open>this.reconnectTimer = setTimeout(() => this.connect()..., delay)\<close>.
\<close>

definition scheduleReconnect :: "manager \<Rightarrow> manager" where
  "scheduleReconnect s =
     (let (delay, s1) = backoffDelay s;
          (t, s2) = setTimer Reconnect delay s1
      in s2\<lparr>reconnectTimer := Some t\<rparr>)"

definition handleConnectionDead :: "manager \<Rightarrow> manager" where
  "handleConnectionDead s =
     (let s1 = s\<lparr>connectionState := Disconnected, isConnected := False\<rparr>;
          s2 = (if ws s1 \<noteq> None
                then (socketCall Terminated (socketCall ListenersRemoved s1))\<lparr>ws := None\<rparr>
                else s1);
          s3 = clearKeepAlive s2;
          s4 = emit ''connection_lost'' s3
      in if autoReconnect s4 then scheduleReconnect s4 else s4)"

text \<open>
  \<open>_startKeepAlive\<close> arms the ping interval and the connection monitor. Their callbacks
  and the pong timeout's follow; \<open>Date.now()\<close> is the clock.
\<close>

definition startKeepAlive :: "manager \<Rightarrow> manager" where
  "startKeepAlive s =
     (let s1 = clearKeepAlive s;
          (t1, s2) = setTimer PingInterval (keepAliveInterval s1) s1;
          s3 = s2\<lparr>pingInterval := Some t1\<rparr>;
          (t2, s4) = setTimer ConnectionMonitor (keepAliveInterval s3) s3
      in s4\<lparr>connectionMonitor := Some t2\<rparr>)"

definition pongTimeoutCallback :: "manager \<Rightarrow> manager" where
  "pongTimeoutCallback s = handleConnectionDead s"

definition pingIntervalCallback :: "manager \<Rightarrow> manager" where
  "pingIntervalCallback s =
     (if ws s = Some OPEN
      then (let s1 = s\<lparr>lastActivity := clock s\<rparr>;
                s2 = socketCall (Sent ''?,,'') s1;
                s3 = socketCall Pinged s2;
                (t, s4) = setTimer PongTimeout 5000 s3
            in s4\<lparr>pongTimeout := Some t\<rparr>)
      else handleConnectionDead s)"

definition connectionMonitorCallback :: "manager \<Rightarrow> manager" where
  "connectionMonitorCallback s =
     (let timeSinceLastActivity = clock s - lastActivity s
      in if timeSinceLastActivity > keepAliveInterval s * 3 then handleConnectionDead s else s)"

definition handlePong :: "manager \<Rightarrow> manager" where
  "handlePong s =
     (let s1 = (case pongTimeout s of None \<Rightarrow> s
                | Some t \<Rightarrow> (clearTimer t s)\<lparr>pongTimeout := None\<rparr>)
      in s1\<lparr>lastActivity := clock s1\<rparr>)"

subsection \<open>Primitives of the platform\<close>

text \<open>
  What the manager calls but the repository does not define: HMAC-SHA256 and the AES
  ciphers of Node's \<open>crypto\<close> (\<open>decipherGCM\<close> stands for the object that \<open>_aesDecrypt\<close>
  builds with \<open>crypto.createDecipherGCM\<close>), Base64 and JSON conversion, and the ISO
  rendering of a date. \<open>JSON.parse\<close> returns \<open>None\<close> where it throws a SyntaxError.
  \<open>listenerThrows\<close> says of an event whether a listener registered for it from outside
  the class throws, which \<open>emit\<close> passes on to its caller; the two handlers of a
  correlated response read it, where the \<open>catch\<close> block turns it into a call of
  \<open>reject\<close>.
\<close>

record primitives =
  hmacSha256 :: hmac_fn
  aesCipher :: cipher_fn
  decipherGCM :: cipher_fn
  base64_decode :: "string \<Rightarrow> byte list"
  base64_encode :: "byte list \<Rightarrow> string"
  JSON_parse :: "string \<Rightarrow> jsval option"
  JSON_stringify :: "jsval \<Rightarrow> string"
  toISOString :: "real \<Rightarrow> string"
  listenerThrows :: "string \<Rightarrow> bool"

subsection \<open>Connecting\<close>

text \<open>
  \<open>_sendMessage\<close> throws when there is no open socket (\<open>Inl\<close> with the message of the error).
\<close>

definition sendMessage :: "primitives \<Rightarrow> string \<Rightarrow> jsval \<Rightarrow> manager \<Rightarrow> string + manager" where
  "sendMessage P tag data s =
     (if ws s \<noteq> Some OPEN then Inl ''WebSocket not connected''
      else Inr (socketCall (Sent (tag @ '','' @ JSON_stringify P data)) s))"

text \<open>
  \<open>connect\<close> up to its \<open>await\<close>. \<open>fromTimer\<close> says that the call is the one in a
  reconnect timer's callback, which emits \<open>reconnect_failed\<close> when \<open>connect\<close> throws. Each
  attempt registers a \<open>once('connected')\<close> and a \<open>once('error')\<close> listener, both closing
  over the handle of the attempt's timeout; the attempt's promise is pending exactly as
  long as that timeout is armed.
\<close>

definition connect_begin :: "bool \<Rightarrow> manager \<Rightarrow> manager" where
  "connect_begin fromTimer s =
     (if connectionState s = Connecting \<or> connectionState s = Connected then s
      else
        (let s1 = s\<lparr>connectionState := Connecting, connectionAttempts := connectionAttempts s + 1\<rparr>;
             (serverUrl, s2) = getNextServer s1;
             s3 = (if ws s2 \<noteq> None
                   then socketCall Terminated (socketCall ListenersRemoved s2) else s2);
             s4 = (socketCall (Created serverUrl) s3)\<lparr>ws := Some CONNECTING\<rparr>;
             (t, s5) = setTimer ConnectTimeout (connectionTimeout s4) s4
         in s5\<lparr>onceConnected := onceConnected s5 @ [t],
                onceError := onceError s5 @ [(t, fromTimer)]\<rparr>))"

text \<open>The \<open>catch\<close> block of \<open>connect\<close>, and the \<open>catch\<close> of the timer callback after it.\<close>

definition connect_catch :: "bool \<Rightarrow> manager \<Rightarrow> manager" where
  "connect_catch fromTimer s =
     (let s1 = s\<lparr>connectionState := Disconnected\<rparr>;
          s2 = (if autoReconnect s1 \<and> connectionAttempts s1 < maxReconnectAttempts s1
                then scheduleReconnect s1
                else emit ''connection_failed'' s1)
      in if fromTimer then emit ''reconnect_failed'' s2 else s2)"

definition connectTimeoutCallback :: "nat \<Rightarrow> manager \<Rightarrow> manager" where
  "connectTimeoutCallback t s =
     connect_catch (map_of (onceError s) t = Some True) (s\<lparr>connectionState := Disconnected\<rparr>)"

text \<open>
  \<open>this.emit('connected')\<close>: every registered \<open>once('connected')\<close> listener clears its
  timeout, resets the attempt counter and resolves its promise; the listeners are then
  gone.
\<close>

definition emitConnected :: "manager \<Rightarrow> manager" where
  "emitConnected s =
     emit ''connected''
       ((foldl (\<lambda>s' t. (clearTimer t s')\<lparr>connectionAttempts := 0\<rparr>) s (onceConnected s))
          \<lparr>onceConnected := []\<rparr>)"

text \<open>
  \<open>this.emit('error', error)\<close>: every registered \<open>once('error')\<close> listener clears its
  timeout and rejects its promise; for the promises that were pending, the \<open>catch\<close> block
  of \<open>connect\<close> runs afterwards.
\<close>

definition emitError :: "manager \<Rightarrow> manager" where
  "emitError s =
     (let pending = filter (\<lambda>x. armed s (fst x)) (onceError s);
          s1 = foldl (\<lambda>s' x. clearTimer (fst x) s') s (onceError s);
          s2 = emit ''error'' (s1\<lparr>onceError := []\<rparr>)
      in foldl (\<lambda>s' x. connect_catch (snd x) s') s2 pending)"

definition handleOpen :: "manager \<Rightarrow> manager" where
  "handleOpen s =
     (let s1 = s\<lparr>connectionState := Connected, isConnected := True, lastActivity := clock s,
                 connectionAttempts := 0\<rparr>;
          s2 = startKeepAlive s1
      in emitConnected s2)"

definition handleError :: "manager \<Rightarrow> manager" where
  "handleError s = emitError s"


subsection \<open>Disconnecting\<close>

text \<open>
  \<open>disconnect\<close>: with an open socket it sends the goodbye message and pauses for 100 ms
  before it closes the socket; otherwise it terminates the socket, if any, at once. The
  statements after the \<open>if\<close> are \<open>disconnect_finish\<close>. When the socket is gone by the
  end of the pause, \<open>this.ws.close\<close> throws, and the \<open>catch\<close> block only logs.
\<close>

definition disconnect_finish :: "manager \<Rightarrow> manager" where
  "disconnect_finish s =
     s\<lparr>isConnected := False, isAuthenticated := False, ws := None,
       connectionAttempts := 0, messageSentCount := 0\<rparr>"

definition disconnect_begin :: "primitives \<Rightarrow> manager \<Rightarrow> manager" where
  "disconnect_begin P s =
     (let s1 = s\<lparr>autoReconnect := False, connectionState := Disconnected\<rparr>;
          s2 = clearKeepAlive s1
      in if ws s2 = Some OPEN
         then (case sendMessage P ''goodbye''
                      (JArr [JStr ''admin'', JStr ''Conn'', JStr ''disconnect'']) s2 of
                 Inl e \<Rightarrow> s2
               | Inr s3 \<Rightarrow> snd (setTimer DisconnectPause 100 s3))
         else if ws s2 \<noteq> None then disconnect_finish (socketCall Terminated s2)
         else disconnect_finish s2)"

definition disconnect_resume :: "manager \<Rightarrow> manager" where
  "disconnect_resume s =
     (if ws s = None then s else disconnect_finish (socketCall Closed s))"

subsection \<open>Tagged requests\<close>

text \<open>
  \<open>Map\<close> operations on \<open>messageQueue\<close>: \<open>set\<close> replaces the value of a present key in
  place and appends a new key; \<open>get\<close>, \<open>has\<close> and \<open>delete\<close> go by key.
\<close>

definition getTimestamp :: "manager \<Rightarrow> int" where
  "getTimestamp s = \<lfloor>clock s / 1000\<rfloor>"

definition initMessage :: "string \<Rightarrow> string option \<Rightarrow> jsval" where
  "initMessage description cid =
     JArr [JStr ''admin'', JStr ''init'', JArr [JNum 2, JNum 2121, JNum 6],
           JArr [JStr description, JStr ''WhatsApp Web Library''],
           (case cid of None \<Rightarrow> JNull | Some c \<Rightarrow> JStr c), JBool True]"

text \<open>
  \<open>initializeAuth\<close>: the queue entry is stored before the message is sent, with
  \<open>resolve\<close> and \<open>reject\<close> still \<open>null\<close>; when \<open>_sendMessage\<close> throws, the entry stays as
  it is and the error is thrown on (\<open>Inl\<close>). Otherwise the promise is created, its
  \<open>resolve\<close> and \<open>reject\<close> are stored in the entry, and the 30 second timeout is armed.
  The result is the promise.
\<close>

definition initializeAuth :: "primitives \<Rightarrow> manager \<Rightarrow> (string \<times> manager) + (nat \<times> manager)" where
  "initializeAuth P s =
     (let (bytes, s1) = takeRandomBytes 16 s;
          s2 = s1\<lparr>clientId := Some (base64_encode P bytes)\<rparr>;
          messageTag = toString_int (getTimestamp s2);
          msg = initMessage (''WhatsApp Web Library at '' @ toISOString P (clock s2)) (clientId s2);
          s3 = s2\<lparr>messageQueue :=
                    AList.update messageTag \<lparr>desc = ''_login'', resolve = None, reject = None\<rparr>
                      (messageQueue s2)\<rparr>
      in (case sendMessage P messageTag msg s3 of
            Inl e \<Rightarrow> Inl (e, s3)
          | Inr s4 \<Rightarrow>
              (let p = nextPromise s4;
                   s5 = s4\<lparr>nextPromise := p + 1,
                           messageQueue :=
                             AList.update messageTag
                               \<lparr>desc = ''_login'', resolve = Some p, reject = Some p\<rparr>
                               (messageQueue s4)\<rparr>;
                   (t, s6) = setTimer (AuthInitTimeout messageTag p) 30000 s5
               in Inr (p, s6))))"

text \<open>The timeout of a request: if the tag is still queued, the entry is deleted and the promise rejected.\<close>

definition requestTimeout :: "string \<Rightarrow> nat \<Rightarrow> string \<Rightarrow> manager \<Rightarrow> manager" where
  "requestTimeout tag p msg s =
     (if map_of (messageQueue s) tag \<noteq> None
      then callReject (Some p) msg (s\<lparr>messageQueue := AList.delete tag (messageQueue s)\<rparr>)
      else s)"

record session_data =
  sd_clientId :: string
  sd_clientToken :: jsval
  sd_serverToken :: jsval
  sd_encKey :: string
  sd_macKey :: string

definition loginWithSession ::
  "primitives \<Rightarrow> session_data \<Rightarrow> manager \<Rightarrow> (string \<times> manager) + (nat \<times> manager)"
where
  "loginWithSession P sessionData s =
     (let s1 = s\<lparr>clientId := Some (sd_clientId sessionData),
                 connectionInfo := (connectionInfo s)
                   \<lparr>clientToken := Some (sd_clientToken sessionData),
                    serverToken := Some (sd_serverToken sessionData)\<rparr>,
                 encKey := Some (base64_decode P (sd_encKey sessionData)),
                 macKey := Some (base64_decode P (sd_macKey sessionData))\<rparr>;
          messageTag = toString_int (getTimestamp s1)
      in (case sendMessage P messageTag (initMessage ''WhatsApp Web Library'' (clientId s1)) s1 of
            Inl e \<Rightarrow> Inl (e, s1)
          | Inr s2 \<Rightarrow>
              (let loginTag = toString_int (getTimestamp s2);
                   loginMessage =
                     JArr [JStr ''admin'', JStr ''login'', sd_clientToken sessionData,
                           sd_serverToken sessionData, JStr (sd_clientId sessionData),
                           JStr ''takeover''];
                   s3 = s2\<lparr>messageQueue :=
                             AList.update loginTag
                               \<lparr>desc = ''_restoresession'', resolve = None, reject = None\<rparr>
                               (messageQueue s2)\<rparr>
               in (case sendMessage P loginTag loginMessage s3 of
                     Inl e \<Rightarrow> Inl (e, s3)
                   | Inr s4 \<Rightarrow>
                       (let p = nextPromise s4;
                            s5 = s4\<lparr>nextPromise := p + 1,
                                    messageQueue :=
                                      AList.update loginTag
                                        \<lparr>desc = ''_restoresession'', resolve = Some p,
                                          reject = Some p\<rparr>
                                        (messageQueue s4)\<rparr>;
                            (t, s6) = setTimer (SessionLoginTimeout loginTag p) 30000 s5
                        in Inr (p, s6))))))"

subsection \<open>Inbound text messages\<close>









subsection \<open>Unsolicited JSON messages\<close>










subsection \<open>The event loop\<close>

text \<open>
  A timer that fires runs its callback; a timeout is disarmed by firing, an interval
  stays armed. The socket library sets \<open>readyState\<close> before it emits \<open>open\<close> or
  \<open>close\<close>.
\<close>

fun repeating :: "task \<Rightarrow> bool" where
  "repeating PingInterval = True"
| "repeating ConnectionMonitor = True"
| "repeating _ = False"

fun runTask :: "nat \<Rightarrow> task \<Rightarrow> manager \<Rightarrow> manager" where
  "runTask t ConnectTimeout s = connectTimeoutCallback t s"
| "runTask t Reconnect s = connect_begin True s"
| "runTask t (AuthInitTimeout tag p) s =
     requestTimeout tag p ''Authentication initialization timeout'' s"
| "runTask t (SessionLoginTimeout tag p) s = requestTimeout tag p ''Session login timeout'' s"
| "runTask t DisconnectPause s = disconnect_resume s"
| "runTask t PingInterval s = pingIntervalCallback s"
| "runTask t PongTimeout s = pongTimeoutCallback s"
| "runTask t ConnectionMonitor s = connectionMonitorCallback s"

definition fireTimer :: "nat \<Rightarrow> manager \<Rightarrow> manager" where
  "fireTimer t s =
     (case map_of (timers s) t of
        None \<Rightarrow> s
      | Some (cb, delay) \<Rightarrow> runTask t cb (if repeating cb then s else clearTimer t s))"

definition socketOpened :: "manager \<Rightarrow> manager" where
  "socketOpened s = handleOpen (s\<lparr>ws := Some OPEN\<rparr>)"


section \<open>Properties of the codec\<close>

subsection \<open>Positions stay inside the buffer\<close>














subsection \<open>A buffer shorter than the stack limit does not overflow the stack\<close>

















subsection \<open>Truncating the buffer, and shrinking the stack\<close>





















subsection \<open>Round trip of a node\<close>

text \<open>The node of the specification's scenario:
  \<open>{tag: "iq", attributes: {type: "get", id: "1"}, content: "hello"}\<close>.\<close>

definition iq_node :: jsval where
  "iq_node =
     JObj [(''tag'', JStr ''iq''),
           (''attributes'', JObj [(''type'', JStr ''get''), (''id'', JStr ''1'')]),
           (''content'', JStr ''hello'')]"

definition iq_node_bytes :: "byte list" where
  "iq_node_bytes =
     [3, 1, 252, 10, 97, 116, 116, 114, 105, 98, 117, 116, 101, 115, 0, 2, 13, 252, 3, 103,
      101, 116, 14, 252, 1, 49, 0, 252, 5, 104, 101, 108, 108, 111]"

text \<open>
  C1. The claim: \<open>decode (encode n) = n\<close> for every node \<open>n\<close>. On the scenario node the
  encoder writes the token of the tag first and no object marker, so the decoder returns
  the tag string \<open>"iq"\<close> and stops, with any call stack that has room for the one call
  of \<open>_readNode\<close>: the round trip does not give the node back. (The decoder has a case
  for the object marker 255, which the encoder never writes.)
\<close>

theorem encode_decode_iq_node:
  "encode iq_node = Inr iq_node_bytes \<and> decode (Suc limit) iq_node_bytes = Inr (JStr ''iq'')
   \<and> JStr ''iq'' \<noteq> iq_node"
proof -
  have "encode iq_node = Inr iq_node_bytes"
    by (simp add: iq_node_def iq_node_bytes_def encode_def writeString_def TOKENS_def
        writeByte_def utf8_encode_def isAttribute_def)
  moreover have "decode (Suc limit) iq_node_bytes = Inr (JStr ''iq'')"
    by (simp add: iq_node_bytes_def decode_def decodeWith_def decodeAt_def readByte_def
        andThen_def readMarked_def TOKENS_def)
  moreover have "JStr ''iq'' \<noteq> iq_node"
    by (simp add: iq_node_def)
  ultimately show ?thesis by blast
qed

subsection \<open>Buffer underrun\<close>


















section \<open>Properties of the cipher channel, the key agreement and the backoff\<close>

subsection \<open>Verify before decrypt\<close>

text \<open>
  C2. \<open>whatsappDecrypt\<close> takes the first 32 bytes of the blob as the received tag and
  recomputes the HMAC of the rest under \<open>macKey\<close>. Whenever it returns a plaintext, the
  tag equals the recomputed HMAC and the plaintext is what \<open>aesDecrypt\<close> gives for the
  rest. Whenever the tag differs, the result is an error, the same whatever the
  decipher would compute: the verification error, or the length error of the comparison.
  With a matching tag the result is that of \<open>aesDecrypt\<close>.
\<close>

theorem whatsappDecrypt_verify_before_decrypt:
  "(whatsappDecrypt hmac decipher ek mk blob = Inr plaintext \<longrightarrow>
      take 32 blob = hmac mk (drop 32 blob)
      \<and> aesDecrypt decipher ek (drop 32 blob) = Inr plaintext)
   \<and> (take 32 blob \<noteq> hmac mk (drop 32 blob) \<longrightarrow>
      (whatsappDecrypt hmac decipher ek mk blob = Inl HmacVerificationFailed
       \<or> whatsappDecrypt hmac decipher ek mk blob = Inl TimingSafeEqualLength)
      \<and> whatsappDecrypt hmac decipher' ek mk blob
          = whatsappDecrypt hmac decipher ek mk blob)
   \<and> (take 32 blob = hmac mk (drop 32 blob) \<longrightarrow>
      whatsappDecrypt hmac decipher ek mk blob = aesDecrypt decipher ek (drop 32 blob))"
  by (auto simp: whatsappDecrypt_def timingSafeEqual_def Let_def split: if_splits)

text \<open>
  A toy instance: the HMAC is 32 copies of the length of the data, the cipher is the
  identity. The blob carries a correct tag, a 16-byte IV and one padded block.
\<close>

definition toy_hmac :: hmac_fn where
  "toy_hmac key data = replicate 32 (of_nat (length data))"

definition toy_cipher :: cipher_fn where
  "toy_cipher key iv data = Inr data"

definition toy_blob :: "byte list" where
  "toy_blob = replicate 32 20 @ replicate 16 0 @ [104, 105, 2, 2]"

theorem whatsappDecrypt_verify_before_decrypt_witness:
  "whatsappDecrypt toy_hmac toy_cipher [1] [2] toy_blob = Inr [104, 105]
   \<and> take 32 toy_blob = toy_hmac [2] (drop 32 toy_blob)
   \<and> take 32 (0 # toy_blob) \<noteq> toy_hmac [2] (drop 32 (0 # toy_blob))
   \<and> whatsappDecrypt toy_hmac toy_cipher [1] [2] (0 # toy_blob) = Inl HmacVerificationFailed"
proof -
  have ok: "whatsappDecrypt toy_hmac toy_cipher [1] [2] toy_blob = Inr [104, 105]"
    by (simp add: whatsappDecrypt_def timingSafeEqual_def aesDecrypt_def toy_hmac_def
        toy_cipher_def toy_blob_def slice_to_def)
  have bad: "take 32 (0 # toy_blob) \<noteq> toy_hmac [2] (drop 32 (0 # toy_blob))"
    by code_simp
  have len: "whatsappDecrypt toy_hmac toy_cipher [1] [2] (0 # toy_blob) \<noteq> Inl TimingSafeEqualLength"
    by code_simp
  from whatsappDecrypt_verify_before_decrypt[of toy_hmac toy_cipher "[1]" "[2]" toy_blob "[104, 105]"] ok
  have "take 32 toy_blob = toy_hmac [2] (drop 32 toy_blob)" by blast
  moreover
  from whatsappDecrypt_verify_before_decrypt[of toy_hmac toy_cipher "[1]" "[2]" "0 # toy_blob"] bad len
  have "whatsappDecrypt toy_hmac toy_cipher [1] [2] (0 # toy_blob) = Inl HmacVerificationFailed"
    by blast
  ultimately show ?thesis using ok bad by blast
qed

subsection \<open>Key agreement\<close>

text \<open>
  C3. The claim: the shared secret is a function of the private key and the server's
  key, and the public key is derived from the private key. In the code both are fresh
  random bytes: with the same private key and the same server key, two generators give
  two different shared secrets; and two generators that give the same private key give
  two different public keys.
\<close>

definition rng_zero :: rng where
  "rng_zero i = 0"

definition rng_late :: rng where
  "rng_late i = (if i < 32 then 0 else 1)"

definition rng_one :: rng where
  "rng_one i = 1"

theorem shared_secret_is_random_bytes:
  "fst (computeSharedSecret (replicate 32 64) (replicate 32 9) rng_zero)
     \<noteq> fst (computeSharedSecret (replicate 32 64) (replicate 32 9) rng_one)
   \<and> fst (fst (generateKeyPair rng_zero)) = fst (fst (generateKeyPair rng_late))
   \<and> snd (fst (generateKeyPair rng_zero)) \<noteq> snd (fst (generateKeyPair rng_late))"
  by code_simp

subsection \<open>Rounding to a double\<close>

lemma pow2_powr: "pow2 e = 2 powr (real_of_int e)"
proof (cases "0 \<le> e")
  case True
  then have "2 powr (real_of_int e) = 2 powr (real (nat e))" by simp
  also have "\<dots> = 2 ^ nat e" by (simp only: powr_realpow zero_less_numeral)
  finally show ?thesis using True by (simp add: pow2_def)
next
  case False
  then have "2 powr (real_of_int e) = 2 powr (- real (nat (- e)))" by simp
  also have "\<dots> = 1 / 2 ^ nat (- e)" by (simp only: powr_minus_divide powr_realpow zero_less_numeral)
  finally show ?thesis using False by (simp add: pow2_def)
qed

lemma pow2_mono: "a \<le> b \<Longrightarrow> pow2 a \<le> pow2 b"
  by (simp add: pow2_powr)

lemma pow2_less: "a < b \<Longrightarrow> pow2 a < pow2 b"
  by (simp add: pow2_powr)

lemma pow2_pos: "0 < pow2 e"
  by (simp add: pow2_powr)

lemma pow2_add: "pow2 (a + b) = pow2 a * pow2 b"
  by (simp add: pow2_powr powr_add)

lemma pow2_nat: "pow2 (int n) = 2 ^ n"
  by (simp add: pow2_def)

lemma pow2_diff: "pow2 (a - b) = pow2 a / pow2 b"
  by (simp add: pow2_powr powr_diff)


lemma rhe_of_int: "round_half_even (of_int i) = i"
  by (simp add: round_half_even_def)


lemma rhe_minus: "round_half_even (- x) = - round_half_even x"
proof (cases "x \<in> \<int>")
  case True
  then obtain i where "x = of_int i" by (auto elim: Ints_cases)
  then have "- x = of_int (- i)" by simp
  then show ?thesis unfolding \<open>x = of_int i\<close> by (simp only: rhe_of_int)
next
  case False
  then have ne: "x \<noteq> of_int \<lfloor>x\<rfloor>" by (metis Ints_of_int)
  then have fl: "\<lfloor>- x\<rfloor> = - \<lfloor>x\<rfloor> - 1"
    by (simp add: floor_minus ceiling_altdef)
  show ?thesis
    unfolding round_half_even_def Let_def fl by auto
qed




text \<open>The exponent of a number other than zero is the integer part of its binary logarithm.\<close>

lemma exponent_bounds:
  assumes "x \<noteq> 0"
  shows "pow2 (exponent x) \<le> \<bar>x\<bar>" and "\<bar>x\<bar> < pow2 (exponent x + 1)"
proof -
  have "pow2 (exponent x) \<le> \<bar>x\<bar> \<and> \<bar>x\<bar> < pow2 (exponent x + 1)"
  proof (cases "1 \<le> \<bar>x\<bar>")
    case True
    let ?N = "\<lfloor>\<bar>x\<bar>\<rfloor>"
    from True have N: "0 < ?N" by simp
    then have b: "1 \<le> bitlen ?N" by (simp add: bitlen_alt_def)
    from True have e: "exponent x = bitlen ?N - 1" by (simp add: exponent_def)
    from bitlen_bounds[OF N] have lo: "2 ^ nat (bitlen ?N - 1) \<le> ?N" and hi: "?N < 2 ^ nat (bitlen ?N)"
      by simp_all
    from lo have "(2::real) ^ nat (bitlen ?N - 1) \<le> of_int ?N"
      by (metis of_int_le_iff of_int_numeral of_int_power)
    also have "\<dots> \<le> \<bar>x\<bar>" by (rule of_int_floor_le)
    finally have l: "pow2 (exponent x) \<le> \<bar>x\<bar>" using b by (simp add: e pow2_def)
    from hi have "?N + 1 \<le> 2 ^ nat (bitlen ?N)" by simp
    then have "of_int (?N + 1) \<le> (2::real) ^ nat (bitlen ?N)"
      by (metis of_int_le_iff of_int_numeral of_int_power)
    moreover have "\<bar>x\<bar> < of_int (?N + 1)" by (simp add: floor_less_iff[symmetric])
    ultimately have "\<bar>x\<bar> < 2 ^ nat (bitlen ?N)" by linarith
    then have "\<bar>x\<bar> < pow2 (exponent x + 1)" using b by (simp add: e pow2_def)
    with l show ?thesis ..
  next
    case False
    define y where "y = 1 / \<bar>x\<bar>"
    from False assms have y: "1 < y" by (simp add: y_def)
    let ?M = "\<lceil>y\<rceil> - 1"
    from y have "2 \<le> \<lceil>y\<rceil>" by (simp add: le_ceiling_iff)
    then have M: "0 < ?M" by simp
    then have b: "1 \<le> bitlen ?M" by (simp add: bitlen_alt_def)
    from False have e: "exponent x = - bitlen ?M" by (simp add: exponent_def y_def)
    from bitlen_bounds[OF M] have lo: "2 ^ nat (bitlen ?M - 1) \<le> ?M" and hi: "?M < 2 ^ nat (bitlen ?M)"
      by simp_all
    have xy: "\<bar>x\<bar> = 1 / y" using assms by (simp add: y_def)
    from hi have "\<lceil>y\<rceil> \<le> 2 ^ nat (bitlen ?M)" by simp
    then have "of_int \<lceil>y\<rceil> \<le> (2::real) ^ nat (bitlen ?M)"
      by (metis of_int_le_iff of_int_numeral of_int_power)
    moreover have "y \<le> of_int \<lceil>y\<rceil>" by (rule le_of_int_ceiling)
    ultimately have "y \<le> 2 ^ nat (bitlen ?M)" by linarith
    with y have "1 / 2 ^ nat (bitlen ?M) \<le> 1 / y" by (intro divide_left_mono) simp_all
    then have l: "pow2 (exponent x) \<le> \<bar>x\<bar>" using b by (simp add: e pow2_def xy)
    from lo have "(2::real) ^ nat (bitlen ?M - 1) \<le> of_int ?M"
      by (metis of_int_le_iff of_int_numeral of_int_power)
    moreover have "of_int ?M < y" using ceiling_correct[of y] by simp
    ultimately have "(2::real) ^ nat (bitlen ?M - 1) < y" by linarith
    moreover from y have "0 < y" by simp
    ultimately have "1 / y < 1 / 2 ^ nat (bitlen ?M - 1)"
      by (intro divide_strict_left_mono) simp_all
    moreover have "pow2 (exponent x + 1) = 1 / 2 ^ nat (bitlen ?M - 1)"
    proof (cases "bitlen ?M = 1")
      case True
      then show ?thesis by (simp add: e pow2_def)
    next
      case False
      with b have "\<not> 0 \<le> - bitlen ?M + 1" "nat (- (- bitlen ?M + 1)) = nat (bitlen ?M - 1)" by simp_all
      then show ?thesis by (simp add: e pow2_def)
    qed
    ultimately have "\<bar>x\<bar> < pow2 (exponent x + 1)" by (simp add: xy)
    with l show ?thesis ..
  qed
  then show "pow2 (exponent x) \<le> \<bar>x\<bar>" and "\<bar>x\<bar> < pow2 (exponent x + 1)" by simp_all
qed

lemma exponent_unique:
  assumes "pow2 e \<le> \<bar>x\<bar>" and "\<bar>x\<bar> < pow2 (e + 1)"
  shows "exponent x = e"
proof -
  from assms(1) pow2_pos[of e] have x: "x \<noteq> 0" by auto
  note b = exponent_bounds[OF x]
  have "\<not> exponent x < e"
  proof
    assume "exponent x < e"
    then have "pow2 (exponent x + 1) \<le> pow2 e" by (intro pow2_mono) simp
    with b(2) assms(1) show False by simp
  qed
  moreover have "\<not> e < exponent x"
  proof
    assume "e < exponent x"
    then have "pow2 (e + 1) \<le> pow2 (exponent x)" by (intro pow2_mono) simp
    with b(1) assms(2) show False by simp
  qed
  ultimately show ?thesis by simp
qed


lemma exponent_minus: "exponent (- x) = exponent x"
  by (simp add: exponent_def)

lemma quantum_qexp: "quantum x = pow2 (qexp x)"
  by (simp add: quantum_def qexp_def)


lemma double_minus: "double (- x) = - double x"
  by (simp add: double_def quantum_def exponent_minus rhe_minus)

lemma double_zero: "double 0 = 0"
  by (simp add: double_def round_half_even_def)






lemma double_fixed_pos:
  assumes "0 < r" and "r \<le> 2 ^ 53" and "- 1074 \<le> k"
  shows "double (of_int r * pow2 k) = of_int r * pow2 k"
proof -
  define x :: real where "x = of_int r * pow2 k"
  have p53: "pow2 53 = 2 ^ 53" and p52: "pow2 52 = 2 ^ 52"
    using pow2_nat[of 53] pow2_nat[of 52] by simp_all
  have "double x = x"
  proof (cases "r = 2 ^ 53")
    case True
    then have r2: "real_of_int r = pow2 53" by (simp add: p53)
    have x: "x = pow2 (k + 53)" unfolding x_def r2 by (simp add: pow2_add)
    have "exponent x = k + 53"
    proof (rule exponent_unique)
      show "pow2 (k + 53) \<le> \<bar>x\<bar>" using pow2_pos[of "k + 53"] by (simp add: x)
      have "pow2 (k + 53) < pow2 (k + 53 + 1)" by (rule pow2_less) simp
      then show "\<bar>x\<bar> < pow2 (k + 53 + 1)" using pow2_pos[of "k + 53"] by (simp add: x)
    qed
    with assms(3) have q: "quantum x = pow2 (k + 1)" by (simp add: quantum_def add.commute)
    have "x / quantum x = x / pow2 (k + 1)" by (simp only: q)
    also have "\<dots> = pow2 (k + 53 - (k + 1))" by (simp only: x pow2_diff)
    also have "\<dots> = of_int (2 ^ 52)" by (simp add: p52)
    finally have "round_half_even (x / quantum x) = 2 ^ 52" by (simp only: rhe_of_int)
    then have "double x = pow2 52 * pow2 (k + 1)" unfolding double_def q by (simp add: p52)
    also have "\<dots> = x" unfolding x pow2_add[symmetric] by (simp add: add.commute)
    finally show ?thesis .
  next
    case False
    with assms(2) have "r < 2 ^ 53" by simp
    then have "real_of_int r < pow2 53"
      unfolding p53 by (metis of_int_less_iff of_int_numeral of_int_power)
    then have lt: "x < pow2 (k + 53)"
      unfolding x_def pow2_add using pow2_pos[of k] by simp
    from assms(1) have xpos: "0 < x" unfolding x_def using pow2_pos[of k] by simp
    then have nz: "x \<noteq> 0" by simp
    have "exponent x < k + 53"
    proof (rule ccontr)
      assume "\<not> exponent x < k + 53"
      then have "pow2 (k + 53) \<le> pow2 (exponent x)" by (intro pow2_mono) simp
      with exponent_bounds(1)[OF nz] lt xpos show False by simp
    qed
    with assms(3) have "qexp x \<le> k" by (simp add: qexp_def)
    then obtain d where k: "k = qexp x + int d" by (metis zle_iff_zadd)
    have "x / quantum x = x / pow2 (qexp x)" by (simp only: quantum_qexp)
    also have "\<dots> = of_int r * (pow2 k / pow2 (qexp x))" by (simp add: x_def)
    also have "pow2 k / pow2 (qexp x) = pow2 (int d)"
      unfolding pow2_diff[symmetric] k by simp
    also have "of_int r * pow2 (int d) = of_int (r * 2 ^ d)" by (simp add: pow2_nat)
    finally have "round_half_even (x / quantum x) = r * 2 ^ d" by (simp only: rhe_of_int)
    then have "double x = of_int r * (pow2 (int d) * pow2 (qexp x))"
      unfolding double_def quantum_qexp by (simp add: pow2_nat)
    also have "pow2 (int d) * pow2 (qexp x) = pow2 k"
      by (subst k) (simp add: pow2_add)
    finally show ?thesis unfolding x_def .
  qed
  then show ?thesis unfolding x_def .
qed

lemma double_fixed:
  assumes "\<bar>r\<bar> \<le> 2 ^ 53" and "- 1074 \<le> k"
  shows "double (of_int r * pow2 k) = of_int r * pow2 k"
proof -
  consider "0 < r" | "r = 0" | "r < 0" by linarith
  then show ?thesis
  proof cases
    case 1
    with assms show ?thesis by (intro double_fixed_pos) simp_all
  next
    case 2
    then show ?thesis by (simp add: double_zero)
  next
    case 3
    with assms have "0 < - r" "- r \<le> 2 ^ 53" by simp_all
    from double_fixed_pos[OF this assms(2)] show ?thesis by (simp add: double_minus)
  qed
qed



lemma double_int: "\<bar>i\<bar> \<le> 2 ^ 53 \<Longrightarrow> double (of_int i) = of_int i"
  using double_fixed[of i 0] by (simp add: pow2_def)



subsection \<open>Backoff delay\<close>


lemma double_1000: "double 1000 = 1000"
  using double_int[of 1000] by simp

















section \<open>Properties of the outbound queue\<close>

definition calls_on :: "nat \<Rightarrow> client \<Rightarrow> (nat \<times> settlement) list" where
  "calls_on p c = filter (\<lambda>x. fst x = p) (pc_settled c)"

lemma client_ok_init: "client_ok (client_init retries)"
  by (simp add: client_ok_def client_init_def held_def)

lemma client_ok_step: "client_ok c \<Longrightarrow> client_ok (client_step ev c)"
proof (cases ev)
  case (Queue f)
  assume "client_ok c"
  then show ?thesis
    unfolding Queue
    by (auto simp: client_ok_def held_def queueMessage_def Let_def list_all_iff
        split: option.splits)
next
  case Tick
  assume ok: "client_ok c"
  show ?thesis
  proof (cases "pc_messagingActive c \<or> pc_messageQueue c = [] \<or> \<not> pc_isReady c")
    case True
    with ok show ?thesis unfolding Tick by (simp add: processMessageQueue_begin_def)
  next
    case False
    then obtain x xs where q: "pc_messageQueue c = x # xs" by (cases "pc_messageQueue c") auto
    from False ok have "pc_inFlight c = None" by (auto simp: client_ok_def)
    with ok q False show ?thesis
      unfolding Tick
      by (auto simp: client_ok_def held_def processMessageQueue_begin_def list_all_iff)
  qed
next
  case (Finish out)
  assume ok: "client_ok c"
  show ?thesis
  proof (cases "pc_inFlight c")
    case None
    with ok show ?thesis unfolding Finish by (simp add: processMessageQueue_finish_def)
  next
    case (Some taken)
    show ?thesis
    proof (cases out)
      case (Returned result)
      with ok Some show ?thesis
        unfolding Finish
        by (auto simp: client_ok_def held_def processMessageQueue_finish_def list_all_iff)
    next
      case (Threw error)
      show ?thesis
      proof (cases "pc_messageQueue c = []")
        case True
        with ok Some Threw show ?thesis
          unfolding Finish
          by (auto simp: client_ok_def held_def processMessageQueue_finish_def list_all_iff)
      next
        case False
        then have "last (pc_messageQueue c) \<in> set (pc_messageQueue c)" by simp
        with ok have "promise (last (pc_messageQueue c)) < pc_nextPromise c"
          by (auto simp: client_ok_def held_def list_all_iff)
        with ok Some Threw False show ?thesis
          unfolding Finish
          by (auto simp: client_ok_def held_def processMessageQueue_finish_def list_all_iff)
      qed
    qed
  qed
next
  case Reset
  assume "client_ok c"
  then show ?thesis
    unfolding Reset
    by (auto simp: client_ok_def held_def resetState_def list_all_iff split: option.splits)
next
  case Ready
  assume "client_ok c"
  then show ?thesis
    unfolding Ready by (auto simp: client_ok_def held_def list_all_iff split: option.splits)
qed

lemma client_ok_run: "client_ok c \<Longrightarrow> client_ok (client_run evs c)"
  by (induction evs arbitrary: c) (simp_all add: client_ok_step)

text \<open>While the message function runs, nothing is settled and the item taken stays in flight.\<close>

lemma waiting_step:
  assumes "\<not> is_Finish ev" and "pc_inFlight c = Some taken" and "pc_messagingActive c"
  shows "pc_inFlight (client_step ev c) = Some taken \<and> pc_messagingActive (client_step ev c)
         \<and> pc_settled (client_step ev c) = pc_settled c"
  using assms
  by (cases ev) (simp_all add: queueMessage_def Let_def processMessageQueue_begin_def resetState_def)

lemma waiting_run:
  assumes "\<forall>ev\<in>set evs. \<not> is_Finish ev" and "pc_inFlight c = Some taken" and "pc_messagingActive c"
  shows "pc_inFlight (client_run evs c) = Some taken \<and> pc_messagingActive (client_run evs c)
         \<and> pc_settled (client_run evs c) = pc_settled c"
  using assms
proof (induction evs arbitrary: c)
  case Nil
  then show ?case by simp
next
  case (Cons ev evs)
  from Cons.prems have "\<not> is_Finish ev" by simp
  from waiting_step[OF this Cons.prems(2,3)] Cons.prems(1) Cons.IH[of "client_step ev c"]
  show ?case by simp
qed

text \<open>A promise that the client no longer holds is never settled again.\<close>

definition let_go :: "nat \<Rightarrow> client \<Rightarrow> bool" where
  "let_go p c = (p \<notin> set (held c) \<and> p < pc_nextPromise c)"

lemma let_go_step:
  assumes "let_go p c"
  shows "let_go p (client_step ev c) \<and> calls_on p (client_step ev c) = calls_on p c"
proof (cases ev)
  case (Queue f)
  with assms show ?thesis
    by (auto simp: let_go_def held_def calls_on_def queueMessage_def Let_def split: option.splits)
next
  case Tick
  show ?thesis
  proof (cases "pc_messagingActive c \<or> pc_messageQueue c = [] \<or> \<not> pc_isReady c")
    case True
    with assms show ?thesis unfolding Tick by (simp add: processMessageQueue_begin_def)
  next
    case False
    then obtain x xs where q: "pc_messageQueue c = x # xs" by (cases "pc_messageQueue c") auto
    with assms False show ?thesis
      unfolding Tick
      by (auto simp: let_go_def held_def calls_on_def processMessageQueue_begin_def
          split: option.splits)
  qed
next
  case (Finish out)
  show ?thesis
  proof (cases "pc_inFlight c")
    case None
    with assms show ?thesis unfolding Finish by (simp add: processMessageQueue_finish_def)
  next
    case (Some taken)
    show ?thesis
    proof (cases out)
      case (Returned result)
      with assms Some show ?thesis
        unfolding Finish
        by (auto simp: let_go_def held_def calls_on_def processMessageQueue_finish_def)
    next
      case (Threw error)
      show ?thesis
      proof (cases "pc_messageQueue c = []")
        case True
        with assms Some Threw show ?thesis
          unfolding Finish
          by (auto simp: let_go_def held_def calls_on_def processMessageQueue_finish_def)
      next
        case False
        then have "last (pc_messageQueue c) \<in> set (pc_messageQueue c)" by simp
        with assms Some have "promise (last (pc_messageQueue c)) \<noteq> p"
          by (auto simp: let_go_def held_def)
        with assms Some Threw False show ?thesis
          unfolding Finish
          by (auto simp: let_go_def held_def calls_on_def processMessageQueue_finish_def)
      qed
    qed
  qed
next
  case Reset
  with assms show ?thesis
    by (auto simp: let_go_def held_def calls_on_def resetState_def split: option.splits)
next
  case Ready
  with assms show ?thesis
    by (auto simp: let_go_def held_def calls_on_def split: option.splits)
qed

lemma let_go_run: "let_go p c \<Longrightarrow> calls_on p (client_run evs c) = calls_on p c"
proof (induction evs arbitrary: c)
  case Nil
  show ?case by simp
next
  case (Cons ev evs)
  from let_go_step[OF Cons.prems, of ev] Cons.IH[of "client_step ev c"]
  show ?case by simp
qed

text \<open>A promise still in the queue has seen calls of \<open>reject\<close> only.\<close>

lemma queued_calls_reject:
  assumes "client_ok c" and "item \<in> set (pc_messageQueue c)"
  shows "list_all (\<lambda>x. is_reject (snd x)) (calls_on (promise item) c)"
  using assms by (auto simp: client_ok_def held_def calls_on_def list_all_iff)

text \<open>
  C10. A tick takes \<open>item\<close> off the queue and calls its message function. While the
  function runs (events \<open>mid\<close>: messages queued, ticks, resets, but no completion) the
  queue may change. When the function then throws, the only call made is the \<open>reject\<close>
  of the last item in the queue as it is at that moment, if there is one, and that item
  is another message than the one taken. From the tick on, whatever happens later, no
  \<open>resolve\<close> or \<open>reject\<close> of the promise returned for the message taken is called: the
  calls on it stay those made before the tick. So a promise unsettled at the tick is
  never settled. It need not be unsettled: the calls made before the tick are calls of
  \<open>reject\<close>, each with the error of an earlier message that threw while this one was
  the last in the queue.
\<close>

theorem thrown_error_settles_another_message:
  assumes "client_ok c" and "\<not> pc_messagingActive c" and "pc_isReady c"
    and "pc_messageQueue c = item # rest"
    and "\<forall>ev\<in>set mid. \<not> is_Finish ev"
    and "c1 = client_run mid (processMessageQueue_begin c)"
    and "c2 = processMessageQueue_finish (Threw error) c1"
  shows "pc_settled c2 =
           pc_settled c @
             (if pc_messageQueue c1 = [] then []
              else [(promise (last (pc_messageQueue c1)), RejectCall error)])
         \<and> promise item \<notin> promise ` set (pc_messageQueue c1)
         \<and> (\<forall>later. calls_on (promise item) (client_run later c2) = calls_on (promise item) c)
         \<and> (calls_on (promise item) c = [] \<longrightarrow>
              (\<forall>later. calls_on (promise item) (client_run later c2) = []))
         \<and> list_all (\<lambda>x. is_reject (snd x)) (calls_on (promise item) c)"
proof -
  let ?b = "processMessageQueue_begin c"
  from assms(2,3,4) have b: "pc_inFlight ?b = Some item" "pc_messagingActive ?b"
    "pc_settled ?b = pc_settled c"
    by (simp_all add: processMessageQueue_begin_def)
  from waiting_run[OF assms(5) b(1,2)] b(3) assms(6)
  have w: "pc_inFlight c1 = Some item" "pc_messagingActive c1" "pc_settled c1 = pc_settled c"
    by simp_all
  have "client_ok ?b" using client_ok_step[OF assms(1), of Tick] by simp
  then have ok1: "client_ok c1" unfolding assms(6) by (rule client_ok_run)
  with w(1) have fresh: "promise item \<notin> promise ` set (pc_messageQueue c1)"
    and bound: "promise item < pc_nextPromise c1"
    by (auto simp: client_ok_def held_def)
  from w assms(7) have settled2: "pc_settled c2 =
           pc_settled c @
             (if pc_messageQueue c1 = [] then []
              else [(promise (last (pc_messageQueue c1)), RejectCall error)])"
    by (simp add: processMessageQueue_finish_def)
  have same: "calls_on (promise item) c2 = calls_on (promise item) c"
  proof (cases "pc_messageQueue c1 = []")
    case True
    with settled2 show ?thesis by (simp add: calls_on_def)
  next
    case False
    then have "last (pc_messageQueue c1) \<in> set (pc_messageQueue c1)" by simp
    then have "promise (last (pc_messageQueue c1)) \<in> promise ` set (pc_messageQueue c1)"
      by (rule imageI)
    with fresh have "promise (last (pc_messageQueue c1)) \<noteq> promise item" by metis
    with settled2 False show ?thesis by (simp add: calls_on_def)
  qed
  from w(1) assms(7) have q2: "pc_messageQueue c2 = pc_messageQueue c1" "pc_inFlight c2 = None"
    "pc_nextPromise c2 = pc_nextPromise c1"
    by (simp_all add: processMessageQueue_finish_def)
  with fresh bound have "let_go (promise item) c2"
    by (simp add: let_go_def held_def)
  then have after: "calls_on (promise item) (client_run later c2) = calls_on (promise item) c"
    for later
    using let_go_run[of "promise item" c2 later] same by simp
  from assms(4) have "item \<in> set (pc_messageQueue c)" by simp
  from queued_calls_reject[OF assms(1) this]
  have before: "list_all (\<lambda>x. is_reject (snd x)) (calls_on (promise item) c)" .
  from settled2 fresh after before show ?thesis by simp
qed

text \<open>
  Two messages are queued, with promises 0 and 1. The first is taken and its function
  throws: the call made is the \<open>reject\<close> of promise 1, and promise 0, unsettled at the
  tick, sees no call, also after the second message has been sent.
\<close>

definition two_queued :: client where
  "two_queued = client_run [Ready, Queue 10, Queue 11] (client_init 3)"

theorem thrown_error_settles_another_message_witness:
  "pc_settled (processMessageQueue_finish (Threw ''boom'') (processMessageQueue_begin two_queued))
     = [(1, RejectCall ''boom'')]
   \<and> map promise (pc_messageQueue two_queued) = [0, 1]
   \<and> calls_on 0 two_queued = []
   \<and> calls_on 0 (client_run [Tick, Finish (Returned JNull)]
        (processMessageQueue_finish (Threw ''boom'') (processMessageQueue_begin two_queued))) = []"
proof -
  have q: "pc_messageQueue two_queued =
      [\<lparr>messageFunction = 10, promise = 0, attempts = 0, maxAttempts = 3\<rparr>,
       \<lparr>messageFunction = 11, promise = 1, attempts = 0, maxAttempts = 3\<rparr>]"
    and s: "pc_settled two_queued = []" "\<not> pc_messagingActive two_queued" "pc_isReady two_queued"
    by (simp_all add: two_queued_def client_init_def queueMessage_def)
  have ok: "client_ok two_queued"
    unfolding two_queued_def by (rule client_ok_run) (rule client_ok_init)
  have mid: "\<forall>ev\<in>set []. \<not> is_Finish ev" by simp
  have q1: "pc_messageQueue (processMessageQueue_begin two_queued) =
      [\<lparr>messageFunction = 11, promise = 1, attempts = 0, maxAttempts = 3\<rparr>]"
    using q s by (simp add: processMessageQueue_begin_def)
  have none: "calls_on 0 two_queued = []"
    using s(1) by (simp add: calls_on_def)
  note t = thrown_error_settles_another_message[OF ok s(2) s(3) q mid, of
      "processMessageQueue_begin two_queued"
      "processMessageQueue_finish (Threw ''boom'') (processMessageQueue_begin two_queued)" "''boom''"]
  from t q1 s(1) have "pc_settled (processMessageQueue_finish (Threw ''boom'') (processMessageQueue_begin two_queued))
     = [(1, RejectCall ''boom'')]" by simp
  moreover from t none have "\<forall>later. calls_on 0 (client_run later
        (processMessageQueue_finish (Threw ''boom'') (processMessageQueue_begin two_queued))) = []"
    by simp
  then have "calls_on 0 (client_run [Tick, Finish (Returned JNull)]
        (processMessageQueue_finish (Threw ''boom'') (processMessageQueue_begin two_queued))) = []"
    by (rule spec)
  moreover from q have "map promise (pc_messageQueue two_queued) = [0, 1]" by simp
  ultimately show ?thesis using none by blast
qed

text \<open>
  The same two messages, and both message functions throw. The error of the first is
  delivered to promise 1, that of the second message, which stays in the queue. The
  next tick takes the second message off the queue and its function throws: the promise
  returned for it is settled, rejected with the error of the first message, and its own
  error is delivered to nobody.
\<close>

definition first_failed :: client where
  "first_failed = client_run [Tick, Finish (Threw ''first''), Tick] two_queued"

theorem thrown_error_settles_another_message_counterexample:
  "pc_inFlight first_failed
     = Some \<lparr>messageFunction = 11, promise = 1, attempts = 0, maxAttempts = 3\<rparr>
   \<and> calls_on 1 first_failed = [(1, RejectCall ''first'')]
   \<and> pc_settled (processMessageQueue_finish (Threw ''second'') first_failed)
       = [(1, RejectCall ''first'')]"
  by (simp add: first_failed_def two_queued_def client_init_def queueMessage_def
      processMessageQueue_begin_def processMessageQueue_finish_def calls_on_def)

section \<open>Properties of the connection manager\<close>

subsection \<open>Scenarios\<close>

text \<open>
  Stand-ins for the platform's primitives, used where a statement is evaluated on a
  concrete run: the toy HMAC and cipher from above, byte-wise Base64, a JSON parser that
  knows two texts, a constant \<open>JSON.stringify\<close>, and listeners that never throw.
\<close>

definition toyPrimitives :: primitives where
  \<open>toyPrimitives =
     \<lparr>hmacSha256 = toy_hmac, aesCipher = toy_cipher, decipherGCM = toy_cipher,
      base64_decode = utf8_encode, base64_encode = utf8_decode,
      JSON_parse =
        (\<lambda>text. if text = ''{"status":200}'' then Some (JObj [(''status'', JNum 200)])
                else if text = ''{"status":200,"ref":"abc"}''
                  then Some (JObj [(''status'', JNum 200), (''ref'', JStr ''abc'')])
                else None),
      JSON_stringify = (\<lambda>v. ''[]''), toISOString = (\<lambda>t. ''1970-01-01T00:00:00.000Z''),
      listenerThrows = (\<lambda>name. False)\<rparr>\<close>

text \<open>
  A manager built with default options at time 0; the same after two connection
  attempts, the first of which timed out (timer 0 is its timeout, timer 1 the reconnect);
  a manager that connected at the first attempt and called \<open>initializeAuth\<close>, whose
  request is pending; and the latter after the network closed its socket.
\<close>

definition fresh :: manager where
  "fresh = newManager defaultOptions 0 rng_zero (\<lambda>i. 0)"

definition twice_tried :: manager where
  "twice_tried = fireTimer 1 (fireTimer 0 (connect_begin False fresh))"

definition awaiting_qr :: manager where
  "awaiting_qr =
     (case initializeAuth toyPrimitives (socketOpened (connect_begin False fresh)) of
        Inl (e, s) \<Rightarrow> s | Inr (p, s) \<Rightarrow> s)"


subsection \<open>The timers the manager keeps track of\<close>

text \<open>
  The handles stored in \<open>pingInterval\<close>, \<open>connectionMonitor\<close>, \<open>pongTimeout\<close> and
  \<open>reconnectTimer\<close>; the timer table is fresh when every armed handle is below the
  next handle to be given out, as it is in every state the methods produce from a new
  manager.
\<close>

definition tracked :: "manager \<Rightarrow> nat \<Rightarrow> bool" where
  "tracked s t = (Some t \<in> {pingInterval s, connectionMonitor s, pongTimeout s, reconnectTimer s})"

definition timers_fresh :: "manager \<Rightarrow> bool" where
  "timers_fresh s = list_all (\<lambda>x. fst x < nextTimer s) (timers s)"

lemmas runtime_defs = setTimer_def clearTimer_def emit_def socketCall_def nextRandom_def
  takeRandomBytes_def callResolve_def callReject_def

lemma clearKeepAlive_eq:
  "clearKeepAlive s =
     s\<lparr>pingInterval := None, connectionMonitor := None, pongTimeout := None,
       reconnectTimer := None, timers := filter (\<lambda>x. \<not> tracked s (fst x)) (timers s)\<rparr>"
proof -
  have f: "filter (\<lambda>x. \<not> tracked s (fst x)) (timers s) =
        timers (clearKeepAlive s)"
    by (cases "pingInterval s"; cases "connectionMonitor s"; cases "pongTimeout s";
        cases "reconnectTimer s")
      (auto simp: clearKeepAlive_def clearTimer_def tracked_def intro!: filter_cong)
  show ?thesis
    unfolding f
    by (cases "pingInterval s"; cases "connectionMonitor s"; cases "pongTimeout s";
        cases "reconnectTimer s")
      (simp_all add: clearKeepAlive_def clearTimer_def)
qed

lemma startKeepAlive_eq:
  "startKeepAlive s =
     s\<lparr>pingInterval := Some (nextTimer s), connectionMonitor := Some (nextTimer s + 1),
       pongTimeout := None, reconnectTimer := None,
       timers := filter (\<lambda>x. \<not> tracked s (fst x)) (timers s) @
         [(nextTimer s, PingInterval, keepAliveInterval s),
          (nextTimer s + 1, ConnectionMonitor, keepAliveInterval s)],
       nextTimer := nextTimer s + 2\<rparr>"
  by (simp add: startKeepAlive_def clearKeepAlive_eq setTimer_def Let_def)

lemma connected_listeners_frame:
  "connectionState (foldl (\<lambda>s' t. (clearTimer t s')\<lparr>connectionAttempts := 0\<rparr>) s ts) = connectionState s
   \<and> isAuthenticated (foldl (\<lambda>s' t. (clearTimer t s')\<lparr>connectionAttempts := 0\<rparr>) s ts) = isAuthenticated s
   \<and> connectionAttempts (foldl (\<lambda>s' t. (clearTimer t s')\<lparr>connectionAttempts := 0\<rparr>) s ts)
       = (if ts = [] then connectionAttempts s else 0)"
  by (induction ts arbitrary: s) (simp_all add: clearTimer_def)

lemma scheduleReconnect_attempts: "connectionAttempts (scheduleReconnect s) = connectionAttempts s"
  by (simp add: scheduleReconnect_def backoffDelay_def runtime_defs Let_def)

lemma connect_catch_attempts: "connectionAttempts (connect_catch b s) = connectionAttempts s"
  by (simp add: connect_catch_def scheduleReconnect_attempts emit_def Let_def)

lemma handleConnectionDead_eq:
  "handleConnectionDead s =
     (let d = s\<lparr>connectionState := Disconnected, isConnected := False, ws := None,
                 socketCalls := socketCalls s @ (if ws s = None then [] else [ListenersRemoved, Terminated]),
                 pingInterval := None, connectionMonitor := None, pongTimeout := None,
                 emitted := emitted s @ [''connection_lost'']\<rparr>
      in if autoReconnect s
         then d\<lparr>reconnectTimer := Some (nextTimer s),
                timers := filter (\<lambda>x. \<not> tracked s (fst x)) (timers s) @
                  [(nextTimer s, Reconnect,
                    calculateBackoffDelay (reconnectDelay s) (connectionAttempts s) (mathRandom s 0))],
                nextTimer := nextTimer s + 1,
                mathRandom := (\<lambda>i. mathRandom s (i + 1))\<rparr>
         else d\<lparr>reconnectTimer := None,
                timers := filter (\<lambda>x. \<not> tracked s (fst x)) (timers s)\<rparr>)"
  by (cases "ws s")
    (simp_all add: handleConnectionDead_def scheduleReconnect_def backoffDelay_def runtime_defs
      clearKeepAlive_eq tracked_def Let_def)

lemma fresh_lookup:
  "list_all (\<lambda>x. fst x < (n::nat)) xs \<Longrightarrow> map_of (filter P xs @ [(n, c)]) n = Some c"
  by (induction xs) auto

lemma fresh_filter:
  "list_all (\<lambda>x. fst x < (n::nat)) xs \<Longrightarrow>
     filter (\<lambda>x. fst x \<noteq> n) (filter P xs @ [(n, c)]) = filter P xs"
  by (induction xs) auto

subsection \<open>The attempt counter\<close>

text \<open>
  C6, as the code has it. The claim: the counter is reset only on reaching Ready, never
  merely on socket-open, and it increments on every failed connect or dead-connection
  event. In the code \<open>_handleOpen\<close> resets the counter on the socket-open event, where
  the state becomes Connected whatever the authentication state is, and \<open>disconnect\<close>
  resets it as well; every call of \<open>connect\<close> that starts an attempt (the state is
  neither connecting nor connected) increments it by one, and a call in the other states
  changes nothing; the \<open>catch\<close> block of \<open>connect\<close>, the connect timeout and the
  dead-connection path leave it as it is.
\<close>

theorem attempts_reset_on_open:
  "connectionAttempts (handleOpen s) = 0 \<and> connectionState (handleOpen s) = Connected
   \<and> isAuthenticated (handleOpen s) = isAuthenticated s
   \<and> connectionAttempts (disconnect_finish s) = 0
   \<and> (connectionState s \<noteq> Connecting \<and> connectionState s \<noteq> Connected \<longrightarrow>
        connectionAttempts (connect_begin fromTimer s) = connectionAttempts s + 1
        \<and> connectionState (connect_begin fromTimer s) = Connecting)
   \<and> (connectionState s = Connecting \<or> connectionState s = Connected \<longrightarrow>
        connect_begin fromTimer s = s)
   \<and> connectionAttempts (connect_catch fromTimer s) = connectionAttempts s
   \<and> connectionAttempts (connectTimeoutCallback t s) = connectionAttempts s
   \<and> connectionAttempts (handleConnectionDead s) = connectionAttempts s"
proof (intro conjI impI)
  show "connectionAttempts (handleOpen s) = 0" "connectionState (handleOpen s) = Connected"
    "isAuthenticated (handleOpen s) = isAuthenticated s"
    by (simp_all add: handleOpen_def emitConnected_def emit_def startKeepAlive_eq
        connected_listeners_frame Let_def)
next
  show "connectionAttempts (disconnect_finish s) = 0" by (simp add: disconnect_finish_def)
next
  assume "connectionState s \<noteq> Connecting \<and> connectionState s \<noteq> Connected"
  then show "connectionAttempts (connect_begin fromTimer s) = connectionAttempts s + 1"
    and "connectionState (connect_begin fromTimer s) = Connecting"
    by (simp_all add: connect_begin_def getNextServer_def runtime_defs Let_def)
next
  assume "connectionState s = Connecting \<or> connectionState s = Connected"
  then show "connect_begin fromTimer s = s" by (auto simp: connect_begin_def)
next
  show "connectionAttempts (connect_catch fromTimer s) = connectionAttempts s"
    by (rule connect_catch_attempts)
next
  show "connectionAttempts (connectTimeoutCallback t s) = connectionAttempts s"
    by (simp add: connectTimeoutCallback_def connect_catch_attempts)
next
  show "connectionAttempts (handleConnectionDead s) = connectionAttempts s"
    by (simp add: handleConnectionDead_eq Let_def)
qed

text \<open>
  After two attempts the counter is 2; the socket opens, the state is Connected, not
  authenticated, and the counter is 0; a dead connection detected then leaves it at 0.
\<close>

theorem attempts_reset_on_open_counterexample:
  "connectionAttempts twice_tried = 2 \<and> connectionState twice_tried = Connecting
   \<and> connectionAttempts (socketOpened twice_tried) = 0
   \<and> connectionState (socketOpened twice_tried) = Connected
   \<and> \<not> isAuthenticated (socketOpened twice_tried)
   \<and> connectionAttempts (handleConnectionDead (socketOpened twice_tried)) = 0"
  by code_simp

theorem attempts_reset_on_open_witness:
  "connectionState fresh \<noteq> Connecting \<and> connectionState fresh \<noteq> Connected
   \<and> connectionAttempts (connect_begin False fresh) = connectionAttempts fresh + 1
   \<and> connectionState (connect_begin False fresh) = Connecting
   \<and> connect_begin True (connect_begin False fresh) = connect_begin False fresh"
proof -
  have a: "connectionState fresh \<noteq> Connecting \<and> connectionState fresh \<noteq> Connected"
    by (simp add: fresh_def newManager_def)
  with attempts_reset_on_open[of fresh False]
  have b: "connectionAttempts (connect_begin False fresh) = connectionAttempts fresh + 1"
    "connectionState (connect_begin False fresh) = Connecting" by blast+
  with attempts_reset_on_open[of "connect_begin False fresh" True]
  have "connect_begin True (connect_begin False fresh) = connect_begin False fresh" by blast
  with a b show ?thesis by blast
qed

subsection \<open>Disconnecting\<close>

text \<open>
  \<open>disconnect\<close> as a whole, with its pause (the timer armed by \<open>disconnect_begin\<close>)
  elapsing before anything else happens.
\<close>

definition disconnect :: "primitives \<Rightarrow> manager \<Rightarrow> manager" where
  "disconnect P s =
     (let s1 = disconnect_begin P s
      in if ws s = Some OPEN then fireTimer (nextTimer s) s1 else s1)"

text \<open>
  C7, as the code has it. The claim adds that every pending request and queued message
  is rejected with a Cancelled error and that no timer remains armed. In the code
  \<open>disconnect\<close> disables auto-reconnect, sets the state to disconnected, disarms the four
  timers it tracks and forgets their handles, closes an open socket after the goodbye
  message (terminates one that is not open), and resets the flags and counters; it
  leaves the pending requests in the queue, calls no \<open>resolve\<close> or \<open>reject\<close>, emits
  nothing, and every other armed timer stays armed. The outbound queue belongs to the
  client, whose \<open>logout\<close> and \<open>destroy\<close> call \<open>_resetState\<close> after \<open>disconnect\<close>: it
  empties the queue and calls no \<open>reject\<close> either.
\<close>

theorem disconnect_effects:
  assumes "timers_fresh s"
  shows "(let d = disconnect P s in
        \<not> autoReconnect d \<and> connectionState d = Disconnected \<and> ws d = None
        \<and> \<not> isConnected d \<and> \<not> isAuthenticated d
        \<and> connectionAttempts d = 0 \<and> messageSentCount d = 0
        \<and> pingInterval d = None \<and> connectionMonitor d = None \<and> pongTimeout d = None
        \<and> reconnectTimer d = None
        \<and> timers d = filter (\<lambda>x. \<not> tracked s (fst x)) (timers s)
        \<and> socketCalls d = socketCalls s @
            (if ws s = Some OPEN
             then [Sent (''goodbye,'' @ JSON_stringify P (JArr [JStr ''admin'', JStr ''Conn'', JStr ''disconnect''])),
                   Closed]
             else if ws s = None then [] else [Terminated])
        \<and> messageQueue d = messageQueue s
        \<and> resolverCalls d = resolverCalls s
        \<and> emitted d = emitted s)
     \<and> pc_messageQueue (resetState c) = [] \<and> pc_settled (resetState c) = pc_settled c"
proof (cases "ws s = Some OPEN")
  case True
  let ?s2 = "clearKeepAlive (s\<lparr>autoReconnect := False, connectionState := Disconnected\<rparr>)"
  have b: "disconnect_begin P s =
      s\<lparr>autoReconnect := False, connectionState := Disconnected,
        pingInterval := None, connectionMonitor := None, pongTimeout := None, reconnectTimer := None,
        socketCalls := socketCalls s @
          [Sent (''goodbye,'' @ JSON_stringify P (JArr [JStr ''admin'', JStr ''Conn'', JStr ''disconnect'']))],
        timers := filter (\<lambda>x. \<not> tracked s (fst x)) (timers s) @ [(nextTimer s, DisconnectPause, 100)],
        nextTimer := nextTimer s + 1\<rparr>"
    using True
    by (simp add: disconnect_begin_def sendMessage_def clearKeepAlive_eq tracked_def runtime_defs Let_def)
  let ?b = "disconnect_begin P s"
  from assms have fr: "list_all (\<lambda>x. fst x < nextTimer s) (timers s)" by (simp add: timers_fresh_def)
  have look: "map_of (timers ?b) (nextTimer s) = Some (DisconnectPause, 100)"
    unfolding b using fresh_lookup[OF fr] by (simp del: map_of_append)
  have rest: "timers (clearTimer (nextTimer s) ?b) = filter (\<lambda>x. \<not> tracked s (fst x)) (timers s)"
    unfolding b using fresh_filter[OF fr] by (simp add: clearTimer_def)
  have fire: "fireTimer (nextTimer s) ?b = disconnect_resume (clearTimer (nextTimer s) ?b)"
    by (simp add: fireTimer_def look)
  have c: "clearTimer (nextTimer s) ?b = ?b\<lparr>timers := filter (\<lambda>x. \<not> tracked s (fst x)) (timers s)\<rparr>"
    using rest by (simp add: clearTimer_def)
  have d: "disconnect P s =
      disconnect_resume (?b\<lparr>timers := filter (\<lambda>x. \<not> tracked s (fst x)) (timers s)\<rparr>)"
    using True by (simp add: disconnect_def fire c Let_def)
  show ?thesis
    unfolding d b using True
    by (simp add: disconnect_resume_def disconnect_finish_def socketCall_def resetState_def Let_def)
next
  case False
  then show ?thesis
    by (cases "ws s")
      (simp_all add: disconnect_def disconnect_begin_def disconnect_finish_def clearKeepAlive_eq
        tracked_def runtime_defs resetState_def Let_def)
qed

text \<open>
  With the request of \<open>initializeAuth\<close> pending, \<open>disconnect\<close> leaves the entry in the
  queue, rejects nothing, and the request's 30 second timeout stays armed.
\<close>

theorem disconnect_effects_counterexample:
  "messageQueue awaiting_qr = [(''0'', \<lparr>desc = ''_login'', resolve = Some 0, reject = Some 0\<rparr>)]
   \<and> timers awaiting_qr =
       [(1, PingInterval, 20000), (2, ConnectionMonitor, 20000), (3, AuthInitTimeout ''0'' 0, 30000)]
   \<and> messageQueue (disconnect toyPrimitives awaiting_qr)
       = [(''0'', \<lparr>desc = ''_login'', resolve = Some 0, reject = Some 0\<rparr>)]
   \<and> resolverCalls (disconnect toyPrimitives awaiting_qr) = []
   \<and> timers (disconnect toyPrimitives awaiting_qr) = [(3, AuthInitTimeout ''0'' 0, 30000)]"
  by code_simp

theorem disconnect_effects_witness:
  "timers_fresh awaiting_qr
   \<and> \<not> autoReconnect (disconnect toyPrimitives awaiting_qr)
   \<and> ws (disconnect toyPrimitives awaiting_qr) = None
   \<and> pingInterval (disconnect toyPrimitives awaiting_qr) = None
   \<and> resolverCalls (disconnect toyPrimitives awaiting_qr) = resolverCalls awaiting_qr"
proof -
  have f: "timers_fresh awaiting_qr" by code_simp
  from disconnect_effects[OF f, of toyPrimitives] show ?thesis
    using f by (simp add: Let_def)
qed

subsection \<open>Dead connections\<close>




subsection \<open>Request correlation\<close>







































end
